theory Spec2Isabelle
  imports Complex_Main
begin

section \<open>Canopy metrics: \<open>figures/compute-crop-parameters.py\<close>\<close>

text \<open>
  The script works on NumPy \<open>float64\<close> arrays. The embedding computes over the reals:
  rounding, \<open>nan\<close> and \<open>inf\<close> are not represented. A row of the loaded table is a
  record of its first four columns; a NumPy array is a list; a boolean-mask selection is
  \<open>filter\<close>, which keeps the order of the rows as NumPy does.
\<close>

record pt =
  px :: real
  py :: real
  pz :: real
  pint :: real

text \<open>
  Every error of the script is a Python \<open>ValueError\<close>; the constructors tell the raising
  sites apart: \<open>np.min\<close>/\<open>np.max\<close> of an empty array, line 65
  (\<open>"Insufficient ground points to fit plane."\<close>), line 14
  (\<open>"Not enough points to fit a plane"\<close>) and \<open>np.percentile\<close> outside its domain.
\<close>

datatype crop_error =
    ZeroSizeReduction
  | InsufficientGroundPoints
  | NotEnoughPointsToFitPlane
  | PercentileDomain

definition bindE :: "'e + 'a \<Rightarrow> ('a \<Rightarrow> 'e + 'b) \<Rightarrow> 'e + 'b" where
  "bindE m f = (case m of Inl e \<Rightarrow> Inl e | Inr x \<Rightarrow> f x)"

text \<open>
  \<open>np.percentile(a, q)\<close> with the default method (linear interpolation): on the sorted
  array of length \<open>n\<close> the virtual index is \<open>(n - 1) * q / 100\<close>; the result interpolates
  between the entries at its floor and at the next index (clipped to \<open>n - 1\<close>).
  \<open>q\<close> outside \<open>[0, 100]\<close> raises; an empty array has no entry to read.
\<close>

definition percentile :: "real list \<Rightarrow> real \<Rightarrow> crop_error + real" where
  "percentile a q =
     (if q < 0 \<or> 100 < q \<or> a = [] then Inl PercentileDomain
      else
        let s = sort a;
            n = length s;
            virtual_index = (real n - 1) * (q / 100);
            previous_index = nat \<lfloor>virtual_index\<rfloor>;
            next_index = min (previous_index + 1) (n - 1);
            gamma = virtual_index - real previous_index
        in Inr (s ! previous_index + (s ! next_index - s ! previous_index) * gamma))"

definition np_min :: "real list \<Rightarrow> crop_error + real" where
  "np_min a = (if a = [] then Inl ZeroSizeReduction else Inr (Min (set a)))"

definition np_max :: "real list \<Rightarrow> crop_error + real" where
  "np_max a = (if a = [] then Inl ZeroSizeReduction else Inr (Max (set a)))"

definition np_mean :: "real list \<Rightarrow> real" where
  "np_mean a = sum_list a / real (length a)"

text \<open>
  \<open>fit_plane\<close> (lines 5-20). The normal and the offset \<open>d\<close> come from scikit-learn's PCA
  (an eigen-decomposition); the only caller binds them at line 73 and never reads them.
  The embedding returns the third result, \<open>point_on_plane[2]\<close>: the mean of the Z column.
\<close>

definition fit_plane :: "pt list \<Rightarrow> crop_error + real" where
  "fit_plane points =
     (if length points < 3 then Inl NotEnoughPointsToFitPlane
      else Inr (np_mean (map pz points)))"

text \<open>Lines 58-60: the slope-based threshold.\<close>

definition ground_threshold :: "pt list \<Rightarrow> crop_error + real" where
  "ground_threshold points =
     bindE (np_min (map pz points)) (\<lambda>lowest_z.
     bindE (np_max (map px points)) (\<lambda>x_max.
     bindE (np_min (map px points)) (\<lambda>x_min.
       Inr (lowest_z + 0.231 * (x_max - x_min)))))"

text \<open>Lines 61-63: the candidate ground set.\<close>

definition ground_points :: "real \<Rightarrow> pt list \<Rightarrow> pt list" where
  "ground_points thr points = filter (\<lambda>p. pz p \<le> thr) points"

text \<open>Lines 68-70: the candidates at or above the 90th percentile of the candidate Z.\<close>

definition selected_ground_points :: "pt list \<Rightarrow> crop_error + pt list" where
  "selected_ground_points gp =
     bindE (percentile (map pz gp) 90) (\<lambda>ground_z_90th.
       Inr (filter (\<lambda>p. ground_z_90th \<le> pz p) gp))"

text \<open>Lines 57-73: the ground stage of \<open>calculate_plant_height_and_plot\<close>.\<close>

definition estimate_ground_level :: "pt list \<Rightarrow> crop_error + real" where
  "estimate_ground_level points =
     bindE (ground_threshold points) (\<lambda>thr.
       let gp = ground_points thr points in
       if length gp < 3 then Inl InsufficientGroundPoints
       else bindE (selected_ground_points gp) fit_plane)"

text \<open>
  What the script prints at lines 146-161, as one record. The function's return value is
  \<open>p99_top_z\<close> (line 212).
\<close>

record canopy_report =
  n_above_015 :: nat
  p50 :: real
  p60 :: real
  p70 :: real
  p80 :: real
  p90 :: real
  count_top_50 :: nat
  count_top_60 :: nat
  count_top_70 :: nat
  count_top_80 :: nat
  count_top_90 :: nat
  avg_int_50 :: real
  avg_int_60 :: real
  avg_int_70 :: real
  avg_int_80 :: real
  avg_int_90 :: real
  bounding_box_area :: real
  bounding_box_volume :: real
  p99_top_z :: real

text \<open>Lines 107-111: \<open>np.sum(Z_above_015 >= p)\<close>.\<close>

definition count_top :: "pt list \<Rightarrow> real \<Rightarrow> nat" where
  "count_top above_015 p = length (filter (\<lambda>r. p \<le> pz r) above_015)"

text \<open>Lines 113-117: the mean intensity of the same rows, \<open>0\<close> when there is none.\<close>

definition avg_int :: "pt list \<Rightarrow> real \<Rightarrow> real" where
  "avg_int above_015 p =
     (if 0 < count_top above_015 p
      then np_mean (map pint (filter (\<lambda>r. p \<le> pz r) above_015))
      else 0)"

text \<open>Lines 120-140: the bounding box of the rows at or above \<open>p50\<close>, area and volume.\<close>

definition bounding_box :: "pt list \<Rightarrow> real \<Rightarrow> real \<times> real" where
  "bounding_box above_015 p =
     (let sel = filter (\<lambda>r. p \<le> pz r) above_015 in
      if length sel < 2 then (0, 0)
      else
        let width = Max (set (map px sel)) - Min (set (map px sel));
            len = Max (set (map py sel)) - Min (set (map py sel));
            area = width * len;
            h = Max (set (map pz sel)) - p;
            prism_height = (if h < 0 then 0 else h)
        in (area, area * prism_height))"

text \<open>Lines 76-83: \<open>Z -= ground_level\<close>, then the rows with \<open>Z >= 0\<close>.\<close>

definition above_plane :: "pt list \<Rightarrow> real \<Rightarrow> pt list" where
  "above_plane points ground_level =
     filter (\<lambda>r. 0 \<le> pz r) (map (\<lambda>r. r\<lparr>pz := pz r - ground_level\<rparr>) points)"

text \<open>Lines 86-93: the analysis set, the rows with \<open>Z >= 0.15\<close>.\<close>

definition above_015 :: "pt list \<Rightarrow> pt list" where
  "above_015 kept = filter (\<lambda>r. 0.15 \<le> pz r) kept"

text \<open>
  Lines 75-161 and 212: the canopy stage. The result is the printed report (\<open>None\<close> when
  the script prints \<open>"No points above 0.15 m. Exiting."\<close>) and the returned number.
\<close>

definition canopy_metrics :: "pt list \<Rightarrow> real \<Rightarrow> crop_error + canopy_report option \<times> real" where
  "canopy_metrics points ground_level =
     (let kept = above_plane points ground_level;
          a015 = above_015 kept
      in
      if length a015 = 0 then Inr (None, 0)
      else
        bindE (percentile (map pz a015) 50) (\<lambda>q50.
        bindE (percentile (map pz a015) 60) (\<lambda>q60.
        bindE (percentile (map pz a015) 70) (\<lambda>q70.
        bindE (percentile (map pz a015) 80) (\<lambda>q80.
        bindE (percentile (map pz a015) 90) (\<lambda>q90.
        bindE (percentile (map pz kept) 99.5) (\<lambda>q995.
          Inr (Some
                 \<lparr>n_above_015 = length a015,
                  p50 = q50, p60 = q60, p70 = q70, p80 = q80, p90 = q90,
                  count_top_50 = count_top a015 q50,
                  count_top_60 = count_top a015 q60,
                  count_top_70 = count_top a015 q70,
                  count_top_80 = count_top a015 q80,
                  count_top_90 = count_top a015 q90,
                  avg_int_50 = avg_int a015 q50,
                  avg_int_60 = avg_int a015 q60,
                  avg_int_70 = avg_int a015 q70,
                  avg_int_80 = avg_int a015 q80,
                  avg_int_90 = avg_int a015 q90,
                  bounding_box_area = fst (bounding_box a015 q50),
                  bounding_box_volume = snd (bounding_box a015 q50),
                  p99_top_z = q995\<rparr>,
               q995))))))))"

text \<open>Lines 34-212 after loading: ground stage, then canopy stage.\<close>

definition calculate_plant_height_and_plot ::
  "pt list \<Rightarrow> crop_error + canopy_report option \<times> real" where
  "calculate_plant_height_and_plot points =
     bindE (estimate_ground_level points) (canopy_metrics points)"


section \<open>Point-cloud containers: \<open>pcd2csv.py\<close>\<close>

text \<open>
  A byte and a character of a header line are both a \<open>char\<close> (eight bits). The
  embedding covers ASCII headers: Python decodes a header line as UTF-8, and a line with
  a byte of \<open>0x80\<close> or above is either invalid UTF-8 (\<open>UnicodeDecodeError\<close>) or text
  outside ASCII, which a \<open>char\<close> cannot hold; the model stops on both with
  \<open>UnicodeDecodeError\<close>.

  The constructors of \<open>pcd_error\<close> are Python's exception classes; those of
  \<open>ValueError\<close> name the raising site.
\<close>

datatype pcd_error =
    ValidationError
  | KeyError
  | IndexError
  | ValueError_int
  | ValueError_float
  | ValueError_duplicate_field
  | ValueError_itemsize_zero
  | ValueError_buffer_size
  | ValueError_no_field
  | ValueError_loadtxt
  | UnicodeDecodeError

fun mapE :: "('a \<Rightarrow> 'e + 'b) \<Rightarrow> 'a list \<Rightarrow> 'e + 'b list" where
  "mapE f [] = Inr []"
| "mapE f (x # xs) = bindE (f x) (\<lambda>y. bindE (mapE f xs) (\<lambda>ys. Inr (y # ys)))"

subsection \<open>Characters and tokens\<close>

definition ascii_lowercase :: string where
  "ascii_lowercase = ''abcdefghijklmnopqrstuvwxyz''"

definition ascii_uppercase :: string where
  "ascii_uppercase = ''ABCDEFGHIJKLMNOPQRSTUVWXYZ''"

definition ascii_letters :: string where
  "ascii_letters = ascii_lowercase @ ascii_uppercase"

definition digits :: string where
  "digits = ''0123456789''"

text \<open>The regular expression classes \<open>\w\<close> and \<open>\s\<close>, on ASCII.\<close>

definition is_word :: "char \<Rightarrow> bool" where
  "is_word c = (c \<in> set (ascii_letters @ digits @ ''_''))"

definition is_space :: "char \<Rightarrow> bool" where
  "is_space c = (c \<in> set [CHR 0x09, CHR 0x0A, CHR 0x0B, CHR 0x0C, CHR 0x0D,
                            CHR 0x1C, CHR 0x1D, CHR 0x1E, CHR 0x1F, CHR 0x20])"

definition is_digit :: "char \<Rightarrow> bool" where
  "is_digit c = (c \<in> set digits)"

text \<open>\<open>str.lower\<close>, \<open>str.strip\<close>, \<open>str.startswith\<close> and \<open>str.split\<close> (no argument).\<close>

definition lower :: "char \<Rightarrow> char" where
  "lower c = (case map_of (zip ascii_uppercase ascii_lowercase) c of Some d \<Rightarrow> d | None \<Rightarrow> c)"

definition strip :: "string \<Rightarrow> string" where
  "strip s = rev (dropWhile is_space (rev (dropWhile is_space s)))"

definition startswith :: "string \<Rightarrow> string \<Rightarrow> bool" where
  "startswith s p = (take (length p) s = p)"

fun split_acc :: "string \<Rightarrow> string \<Rightarrow> string list" where
  "split_acc cur [] = (if cur = [] then [] else [rev cur])"
| "split_acc cur (c # cs) =
     (if is_space c then (if cur = [] then split_acc [] cs else rev cur # split_acc [] cs)
      else split_acc (c # cur) cs)"

definition split :: "string \<Rightarrow> string list" where
  "split s = split_acc [] s"

text \<open>
  \<open>int(s)\<close> on a token without whitespace: an optional sign, then decimal digits, single
  underscores allowed between digits.
\<close>

fun digitpart_ok :: "string \<Rightarrow> bool" where
  "digitpart_ok [] = False"
| "digitpart_ok [c] = is_digit c"
| "digitpart_ok (c # d # cs) =
     (if is_digit c then
        (if d = CHR ''_'' then digitpart_ok cs else digitpart_ok (d # cs))
      else False)"

definition digit_value :: "char \<Rightarrow> nat" where
  "digit_value c = (case map_of (zip digits [0 ..< 10]) c of Some v \<Rightarrow> v | None \<Rightarrow> 0)"

definition decimal_value :: "string \<Rightarrow> nat" where
  "decimal_value s = foldl (\<lambda>acc c. 10 * acc + digit_value c) 0 (filter is_digit s)"

definition py_int :: "string \<Rightarrow> pcd_error + int" where
  "py_int s =
     (case s of
        [] \<Rightarrow> Inl ValueError_int
      | c # cs \<Rightarrow>
          if c = CHR ''-'' then
            (if digitpart_ok cs then Inr (- int (decimal_value cs)) else Inl ValueError_int)
          else if c = CHR ''+'' then
            (if digitpart_ok cs then Inr (int (decimal_value cs)) else Inl ValueError_int)
          else
            (if digitpart_ok s then Inr (int (decimal_value s)) else Inl ValueError_int))"

text \<open>
  \<open>float(s)\<close> on a token without whitespace. The value is a \<open>float64\<close> that no function
  of the module reads, so the embedding keeps the literal and models only whether
  \<open>float\<close> accepts it: an optional sign, then \<open>inf\<close>, \<open>infinity\<close> or \<open>nan\<close> in any
  case, or a decimal number (digits, an optional point, an optional exponent).
\<close>

definition exponent_ok :: "string \<Rightarrow> bool" where
  "exponent_ok s =
     (case s of
        [] \<Rightarrow> True
      | e # r \<Rightarrow>
          (e = CHR ''e'' \<or> e = CHR ''E'') \<and>
          (case r of
             [] \<Rightarrow> False
           | c # cs \<Rightarrow> if c = CHR ''+'' \<or> c = CHR ''-'' then digitpart_ok cs else digitpart_ok r))"

definition is_digit_or_underscore :: "char \<Rightarrow> bool" where
  "is_digit_or_underscore c = (is_digit c \<or> c = CHR ''_'')"

definition numeric_ok :: "string \<Rightarrow> bool" where
  "numeric_ok s =
     (let ip = takeWhile is_digit_or_underscore s;
          r = dropWhile is_digit_or_underscore s
      in case r of
           [] \<Rightarrow> digitpart_ok ip
         | c # cs \<Rightarrow>
             if c = CHR ''.'' then
               (let fp = takeWhile is_digit_or_underscore cs;
                    r' = dropWhile is_digit_or_underscore cs
                in (ip = [] \<or> digitpart_ok ip) \<and> (fp = [] \<or> digitpart_ok fp)
                   \<and> (ip \<noteq> [] \<or> fp \<noteq> []) \<and> exponent_ok r')
             else digitpart_ok ip \<and> exponent_ok r)"

definition py_float_ok :: "string \<Rightarrow> bool" where
  "py_float_ok s =
     (let body = (case s of [] \<Rightarrow> [] | c # cs \<Rightarrow> if c = CHR ''+'' \<or> c = CHR ''-'' then cs else s)
      in map lower body \<in> set [''inf'', ''infinity'', ''nan''] \<or> numeric_ok body)"

definition py_float :: "string \<Rightarrow> pcd_error + string" where
  "py_float s = (if py_float_ok s then Inr s else Inl ValueError_float)"

text \<open>\<open>f"{i:04d}"\<close> for a non-negative \<open>i\<close>: decimal digits, zero-padded to four.\<close>

fun str_nat :: "nat \<Rightarrow> string" where
  "str_nat n = (if n < 10 then [digits ! n] else str_nat (n div 10) @ [digits ! (n mod 10)])"

declare str_nat.simps [simp del]

definition format_04d :: "nat \<Rightarrow> string" where
  "format_04d i = replicate (4 - length (str_nat i)) (CHR ''0'') @ str_nat i"

subsection \<open>The type tables and \<open>HEADER_PATTERN\<close>\<close>

datatype np_type =
    float32 | float64
  | uint8 | uint16 | uint32 | uint64
  | int8 | int16 | int32 | int64

definition PCD_TYPE_TO_NUMPY_TYPE :: "((string \<times> int) \<times> np_type) list" where
  "PCD_TYPE_TO_NUMPY_TYPE =
     [((''F'', 4), float32), ((''F'', 8), float64),
      ((''U'', 1), uint8), ((''U'', 2), uint16), ((''U'', 4), uint32), ((''U'', 8), uint64),
      ((''I'', 1), int8), ((''I'', 2), int16), ((''I'', 4), int32), ((''I'', 8), int64)]"

text \<open>\<open>np.dtype(t).itemsize\<close> of the ten scalar types.\<close>

fun itemsize :: "np_type \<Rightarrow> nat" where
  "itemsize float32 = 4"
| "itemsize float64 = 8"
| "itemsize uint8 = 1"
| "itemsize uint16 = 2"
| "itemsize uint32 = 4"
| "itemsize uint64 = 8"
| "itemsize int8 = 1"
| "itemsize int16 = 2"
| "itemsize int32 = 4"
| "itemsize int64 = 8"

text \<open>
  \<open>re.match(HEADER_PATTERN, line)\<close> with
  \<open>HEADER_PATTERN = (\w+)\s+([\w\s\.\-?\d+\.?\d*]+)\<close>. The character class of the second
  group is \<open>\w\<close>, \<open>\s\<close> and the five characters \<open>. - ? + *\<close>. The first group is the
  longest run of word characters at the start of the line (a shorter one is not followed
  by whitespace). The whitespace run after it is taken whole when a class character
  follows it, and the second group is then the longest run of class characters from
  there; when none follows and the run has two characters or more, backtracking gives
  the last whitespace character to the second group.
\<close>

definition in_value_class :: "char \<Rightarrow> bool" where
  "in_value_class c = (is_word c \<or> is_space c \<or> c \<in> set ''.-?+*'')"

definition header_match :: "string \<Rightarrow> (string \<times> string) option" where
  "header_match line =
     (let group1 = takeWhile is_word line;
          r1 = dropWhile is_word line;
          ws = takeWhile is_space r1;
          r2 = dropWhile is_space r1;
          run = takeWhile in_value_class r2
      in if group1 = [] \<or> ws = [] then None
         else if run \<noteq> [] then Some (group1, run)
         else if 2 \<le> length ws then Some (group1, [last ws])
         else None)"

subsection \<open>\<open>MetaData\<close>\<close>

datatype Encoding = ASCII | BINARY

record MetaData =
  md_fields :: "string list"
  md_size :: "int list"
  md_type :: "string list"
  md_count :: "int list"
  md_points :: int
  md_width :: int
  md_height :: int
  md_version :: string
  md_viewpoint :: "string list"
  md_data :: Encoding

text \<open>The dictionary \<open>_header\<close> of \<open>parse_header\<close>: one optional entry per key.\<close>

record header_dict =
  h_version :: "string option"
  h_data :: "string option"
  h_width :: "int option"
  h_height :: "int option"
  h_points :: "int option"
  h_fields :: "string list option"
  h_type :: "string list option"
  h_size :: "int list option"
  h_count :: "int list option"
  h_viewpoint :: "string list option"

definition empty_header :: header_dict where
  "empty_header =
     \<lparr>h_version = None, h_data = None, h_width = None, h_height = None, h_points = None,
      h_fields = None, h_type = None, h_size = None, h_count = None, h_viewpoint = None\<rparr>"

text \<open>
  \<open>random.choices(string.ascii_letters + string.digits, k=6)\<close>. The random source is a
  function \<open>rng\<close> from the position of a draw to a natural number; the \<open>k\<close>-th call
  uses the draws \<open>6k, ..., 6k + 5\<close>, each reduced to an index into the 62 characters.
\<close>

definition random_choices :: "(nat \<Rightarrow> nat) \<Rightarrow> nat \<Rightarrow> string" where
  "random_choices rng k =
     map (\<lambda>i. (ascii_letters @ digits) ! (rng (6 * k + i) mod 62)) [0 ..< 6]"

text \<open>
  Lines 97-104: the field names, an anonymous \<open>_\<close> replaced by \<open>#$%&~~\<close> and six random
  characters. The second component counts the calls of \<open>random.choices\<close>.
\<close>

fun name_fields :: "(nat \<Rightarrow> nat) \<Rightarrow> nat \<Rightarrow> string list \<Rightarrow> string list \<times> nat" where
  "name_fields rng k [] = ([], k)"
| "name_fields rng k (s # ss) =
     (if s = ''_''
      then (let (names, k') = name_fields rng (Suc k) ss
            in ((''#$%&~~'' @ random_choices rng k) # names, k'))
      else (let (names, k') = name_fields rng k ss in (s # names, k')))"

text \<open>\<open>value[0]\<close>, an \<open>IndexError\<close> on the empty list.\<close>

definition first_token :: "string list \<Rightarrow> pcd_error + string" where
  "first_token val = (case val of [] \<Rightarrow> Inl IndexError | v # _ \<Rightarrow> Inr v)"

text \<open>
  The key of a header line as \<open>parse_header\<close> reads it: none for a comment, a line
  shorter than two characters or a line that does not match.
\<close>

definition line_key :: "string \<Rightarrow> string option" where
  "line_key line =
     (if startswith line ''#'' \<or> length line < 2 then None
      else map_option (\<lambda>(group1, group2). map lower group1) (header_match line))"

text \<open>Lines 83-110: one round of the loop, on the call counter and the dictionary.\<close>

definition parse_header_line ::
  "(nat \<Rightarrow> nat) \<Rightarrow> nat \<times> header_dict \<Rightarrow> string \<Rightarrow> pcd_error + nat \<times> header_dict" where
  "parse_header_line rng st line =
     (let (k, h) = st in
      if startswith line ''#'' \<or> length line < 2 then Inr st
      else
        case header_match line of
          None \<Rightarrow> Inr st
        | Some (group1, group2) \<Rightarrow>
            let val = split group2;
                key = map lower group1
            in
            if key = ''version'' then
              bindE (first_token val) (\<lambda>v. Inr (k, h\<lparr>h_version := Some v\<rparr>))
            else if key = ''data'' then
              bindE (first_token val) (\<lambda>v. Inr (k, h\<lparr>h_data := Some v\<rparr>))
            else if key = ''width'' then
              bindE (first_token val) (\<lambda>v. bindE (py_int v) (\<lambda>n. Inr (k, h\<lparr>h_width := Some n\<rparr>)))
            else if key = ''height'' then
              bindE (first_token val) (\<lambda>v. bindE (py_int v) (\<lambda>n. Inr (k, h\<lparr>h_height := Some n\<rparr>)))
            else if key = ''points'' then
              bindE (first_token val) (\<lambda>v. bindE (py_int v) (\<lambda>n. Inr (k, h\<lparr>h_points := Some n\<rparr>)))
            else if key = ''fields'' then
              (let (names, k') = name_fields rng k val
               in Inr (k', h\<lparr>h_fields := Some names\<rparr>))
            else if key = ''type'' then Inr (k, h\<lparr>h_type := Some val\<rparr>)
            else if key = ''size'' then
              bindE (mapE py_int val) (\<lambda>ns. Inr (k, h\<lparr>h_size := Some ns\<rparr>))
            else if key = ''count'' then
              bindE (mapE py_int val) (\<lambda>ns. Inr (k, h\<lparr>h_count := Some ns\<rparr>))
            else if key = ''viewpoint'' then
              bindE (mapE py_float val) (\<lambda>fs. Inr (k, h\<lparr>h_viewpoint := Some fs\<rparr>))
            else Inr st)"

fun parse_header_lines ::
  "(nat \<Rightarrow> nat) \<Rightarrow> nat \<times> header_dict \<Rightarrow> string list \<Rightarrow> pcd_error + nat \<times> header_dict" where
  "parse_header_lines rng st [] = Inr st"
| "parse_header_lines rng st (line # lines) =
     bindE (parse_header_line rng st line) (\<lambda>st'. parse_header_lines rng st' lines)"

text \<open>
  \<open>MetaData(**_header)\<close> (lines 67-77): the validation of the pydantic model. The six
  fields without a default are required; every \<open>size\<close> and \<open>count\<close> is positive, every
  \<open>type\<close> is one of \<open>F\<close>, \<open>U\<close>, \<open>I\<close>; \<open>points\<close>, \<open>width\<close> and \<open>height\<close> are not negative;
  \<open>data\<close> is a value of \<open>Encoding\<close>; \<open>viewpoint\<close> has seven entries. Nothing relates the
  lengths of \<open>fields\<close>, \<open>size\<close>, \<open>type\<close> and \<open>count\<close>, or a \<open>type\<close> to its \<open>size\<close>.
\<close>

definition Encoding_of :: "string \<Rightarrow> Encoding option" where
  "Encoding_of s =
     (if s = ''ascii'' then Some ASCII else if s = ''binary'' then Some BINARY else None)"

definition default_viewpoint :: "string list" where
  "default_viewpoint = [''0.0'', ''0.0'', ''0.0'', ''1.0'', ''0.0'', ''0.0'', ''0.0'']"

definition MetaData_validate :: "header_dict \<Rightarrow> pcd_error + MetaData" where
  "MetaData_validate h =
     (case (h_fields h, h_size h, h_type h, h_count h, h_points h, h_width h) of
        (Some fs, Some ss, Some ts, Some cs, Some p, Some w) \<Rightarrow>
          let height = (case h_height h of None \<Rightarrow> 1 | Some n \<Rightarrow> n);
              version = (case h_version h of None \<Rightarrow> ''0.7'' | Some v \<Rightarrow> v);
              viewpoint = (case h_viewpoint h of None \<Rightarrow> default_viewpoint | Some v \<Rightarrow> v);
              data = (case h_data h of None \<Rightarrow> Some BINARY | Some d \<Rightarrow> Encoding_of d)
          in
          if list_all (\<lambda>n. 0 < n) ss \<and> list_all (\<lambda>t. t \<in> set [''F'', ''U'', ''I'']) ts
             \<and> list_all (\<lambda>n. 0 < n) cs \<and> 0 \<le> p \<and> 0 \<le> w \<and> 0 \<le> height
             \<and> length viewpoint = 7
          then (case data of
                  None \<Rightarrow> Inl ValidationError
                | Some d \<Rightarrow>
                    Inr \<lparr>md_fields = fs, md_size = ss, md_type = ts, md_count = cs,
                         md_points = p, md_width = w, md_height = height,
                         md_version = version, md_viewpoint = viewpoint, md_data = d\<rparr>)
          else Inl ValidationError
      | _ \<Rightarrow> Inl ValidationError)"

text \<open>\<open>MetaData.parse_header\<close> (lines 79-112).\<close>

definition parse_header :: "(nat \<Rightarrow> nat) \<Rightarrow> string list \<Rightarrow> pcd_error + MetaData" where
  "parse_header rng lines =
     bindE (parse_header_lines rng (0, empty_header) lines) (\<lambda>(k, h). MetaData_validate h)"

subsection \<open>The record layout\<close>

text \<open>
  One round of the loop of \<open>build_dtype\<close> (lines 118-126), for the field at index \<open>i\<close>:
  the names and types it appends. \<open>self.type[i]\<close>, \<open>self.size[i]\<close> and \<open>self.count[i]\<close>
  raise \<open>IndexError\<close> past the end of their tuple; the table lookup raises \<open>KeyError\<close>.
\<close>

definition dtype_columns :: "MetaData \<Rightarrow> nat \<Rightarrow> pcd_error + (string \<times> np_type) list" where
  "dtype_columns md i =
     (if length (md_type md) \<le> i \<or> length (md_size md) \<le> i then Inl IndexError
      else
        case map_of PCD_TYPE_TO_NUMPY_TYPE (md_type md ! i, md_size md ! i) of
          None \<Rightarrow> Inl KeyError
        | Some np_type \<Rightarrow>
            if length (md_count md) \<le> i then Inl IndexError
            else
              let field = md_fields md ! i;
                  count = md_count md ! i
              in if count = 1 then Inr [(field, np_type)]
                 else Inr (map (\<lambda>c. (field @ ''__'' @ format_04d c, np_type))
                             [0 ..< nat count]))"

text \<open>
  \<open>MetaData.build_dtype\<close> (lines 114-128). \<open>np.dtype\<close> of a list of (name, type) pairs
  is a packed record: the fields follow each other without padding. It raises
  \<open>ValueError\<close> when a name occurs twice. (An empty name, which NumPy would replace by
  \<open>f0\<close>, \<open>f1\<close>, ..., cannot come out of \<open>parse_header\<close>: a token is not empty.)
\<close>

definition np_dtype :: "(string \<times> np_type) list \<Rightarrow> pcd_error + (string \<times> np_type) list" where
  "np_dtype cols = (if distinct (map fst cols) then Inr cols else Inl ValueError_duplicate_field)"

definition build_dtype :: "MetaData \<Rightarrow> pcd_error + (string \<times> np_type) list" where
  "build_dtype md =
     bindE (mapE (dtype_columns md) [0 ..< length (md_fields md)]) (\<lambda>cols. np_dtype (concat cols))"

text \<open>\<open>dtype.itemsize\<close>: the stride of a record.\<close>

definition dtype_itemsize :: "(string \<times> np_type) list \<Rightarrow> nat" where
  "dtype_itemsize dt = sum_list (map (\<lambda>(name, t). itemsize t) dt)"

subsection \<open>The structured array\<close>

text \<open>
  A structured \<open>ndarray\<close> is its \<open>dtype\<close> and its records, each record the bytes of one
  point. A scalar read from it is a \<open>cell\<close>: its type and its bytes. The numeric value of
  the bytes, the common type \<open>np.vstack\<close> promotes the columns to and the text
  \<open>csv.writer\<close> prints for a number are functions of the cells and of the column types;
  they involve floating point and are not modelled.
\<close>

record ndarray =
  dtype :: "(string \<times> np_type) list"
  records :: "string list"

type_synonym cell = "np_type \<times> string"

text \<open>
  \<open>np.frombuffer(buffer, dtype)\<close>: \<open>ValueError\<close> for an item size of zero and for a
  buffer whose size is not a multiple of the item size; otherwise one record for every
  \<open>itemsize\<close> bytes of the buffer.
\<close>

definition np_frombuffer :: "string \<Rightarrow> (string \<times> np_type) list \<Rightarrow> pcd_error + ndarray" where
  "np_frombuffer buffer dt =
     (let n = dtype_itemsize dt in
      if n = 0 then Inl ValueError_itemsize_zero
      else if length buffer mod n \<noteq> 0 then Inl ValueError_buffer_size
      else Inr \<lparr>dtype = dt,
                records = map (\<lambda>i. take n (drop (i * n) buffer)) [0 ..< length buffer div n]\<rparr>)"

text \<open>The first position of a value in a list (\<open>list.index\<close>, and the lookup of a field name).\<close>

fun index_of :: "'a \<Rightarrow> 'a list \<Rightarrow> nat option" where
  "index_of x [] = None"
| "index_of x (y # ys) = (if x = y then Some 0 else map_option Suc (index_of x ys))"

text \<open>\<open>pc_data[field]\<close>: the column of a field, \<open>ValueError\<close> for a name the dtype lacks.\<close>

definition field_offset :: "(string \<times> np_type) list \<Rightarrow> nat \<Rightarrow> nat" where
  "field_offset dt j = dtype_itemsize (take j dt)"

definition getitem :: "ndarray \<Rightarrow> string \<Rightarrow> pcd_error + cell list" where
  "getitem a field =
     (case index_of field (map fst (dtype a)) of
        None \<Rightarrow> Inl ValueError_no_field
      | Some j \<Rightarrow>
          let t = snd (dtype a ! j) in
          Inr (map (\<lambda>r. (t, take (itemsize t) (drop (field_offset (dtype a) j) r)))
                 (records a)))"

text \<open>
  \<open>_parse_pc_data\<close> (lines 190-202). \<open>np.loadtxt\<close> is a parameter: a function from the
  column types and the rest of the file to the records it builds, or to an error.
  \<open>fp.read(n)\<close> returns the next \<open>n\<close> bytes, or all that are left when they are fewer.
\<close>

definition parse_pc_data ::
  "(np_type list \<Rightarrow> string \<Rightarrow> pcd_error + string list) \<Rightarrow> string \<Rightarrow> MetaData
     \<Rightarrow> pcd_error + ndarray" where
  "parse_pc_data loadtxt fp md =
     bindE (build_dtype md) (\<lambda>dt.
       if 0 < md_points md then
         (case md_data md of
            ASCII \<Rightarrow> bindE (loadtxt (map snd dt) fp) (\<lambda>rs. Inr \<lparr>dtype = dt, records = rs\<rparr>)
          | BINARY \<Rightarrow>
              let buffer = take (nat (md_points md * int (dtype_itemsize dt))) fp
              in np_frombuffer buffer dt)
       else Inr \<lparr>dtype = dt, records = []\<rparr>)"

subsection \<open>\<open>PointCloud\<close>\<close>

record PointCloud =
  metadata :: MetaData
  pc_data :: ndarray

text \<open>
  The lines of a binary file as iteration over it yields them: each ends with its
  newline, except a last one without.
\<close>

fun readlines_acc :: "string \<Rightarrow> string \<Rightarrow> string list" where
  "readlines_acc cur [] = (if cur = [] then [] else [rev cur])"
| "readlines_acc cur (b # bs) =
     (if b = CHR 0x0A then rev (b # cur) # readlines_acc [] bs
      else readlines_acc (b # cur) bs)"

definition readlines :: "string \<Rightarrow> string list" where
  "readlines fp = readlines_acc [] fp"

definition decode :: "string \<Rightarrow> pcd_error + string" where
  "decode bline = (if list_ex digit7 bline then Inl UnicodeDecodeError else Inr bline)"

text \<open>
  The loop of \<open>from_fileobj\<close> (lines 137-145), on the lines not yet read: the header
  lines collected and the lines left in the file.
\<close>

fun read_header :: "string list \<Rightarrow> string list \<Rightarrow> pcd_error + string list \<times> string list" where
  "read_header lines [] = Inr (lines, [])"
| "read_header lines (bline # rest) =
     (case decode bline of
        Inl e \<Rightarrow> Inl e
      | Inr text \<Rightarrow>
          let line = strip text in
          if startswith line ''#'' \<or> line = [] then read_header lines rest
          else
            let lines' = lines @ [line] in
            if startswith line ''DATA'' \<or> 10 \<le> length lines' then Inr (lines', rest)
            else read_header lines' rest)"

text \<open>\<open>PointCloud.from_fileobj\<close> (lines 135-152); \<open>from_path\<close> opens the file and calls it.\<close>

definition from_fileobj ::
  "(nat \<Rightarrow> nat) \<Rightarrow> (np_type list \<Rightarrow> string \<Rightarrow> pcd_error + string list) \<Rightarrow> string
     \<Rightarrow> pcd_error + PointCloud" where
  "from_fileobj rng loadtxt fp =
     bindE (read_header [] (readlines fp)) (\<lambda>(lines, rest).
     bindE (parse_header rng lines) (\<lambda>md.
     bindE (parse_pc_data loadtxt (concat rest) md) (\<lambda>arr.
       Inr \<lparr>metadata = md, pc_data = arr\<rparr>)))"

text \<open>The property \<open>PointCloud.fields\<close> (lines 173-182): the expanded column names.\<close>

definition expand_field :: "string \<times> int \<Rightarrow> string list" where
  "expand_field fc =
     (let (field, count) = fc in
      if count = 1 then [field]
      else map (\<lambda>c. field @ ''__'' @ format_04d c) [0 ..< nat count])"

definition PointCloud_fields :: "PointCloud \<Rightarrow> string list" where
  "PointCloud_fields pc =
     concat (map expand_field (zip (md_fields (metadata pc)) (md_count (metadata pc))))"

text \<open>
  A two-dimensional array: its shape and its rows (a shape \<open>(0, k)\<close> has no row).
\<close>

record matrix =
  shape :: "nat \<times> nat"
  rows :: "cell list list"

text \<open>
  \<open>PointCloud.numpy\<close> (lines 159-171). \<open>np.vstack(_stack).T\<close> puts the requested
  columns side by side: row \<open>r\<close> holds entry \<open>r\<close> of every column, in the order of the
  request.
\<close>

definition numpy :: "PointCloud \<Rightarrow> string list option \<Rightarrow> pcd_error + matrix" where
  "numpy pc fields_arg =
     (let fields = (case fields_arg of None \<Rightarrow> PointCloud_fields pc | Some fs \<Rightarrow> fs) in
      if length fields = 0 then Inr \<lparr>shape = (0, 0), rows = []\<rparr>
      else if md_points (metadata pc) = 0 then Inr \<lparr>shape = (0, length fields), rows = []\<rparr>
      else
        bindE (mapE (getitem (pc_data pc)) fields) (\<lambda>stack.
          let n = length (records (pc_data pc)) in
          Inr \<lparr>shape = (n, length fields),
               rows = map (\<lambda>r. map (\<lambda>col. col ! r) stack) [0 ..< n]\<rparr>))"

text \<open>\<open>points[:, selected_indices]\<close>: \<open>IndexError\<close> for an index past the last column.\<close>

definition take_columns :: "matrix \<Rightarrow> nat list \<Rightarrow> pcd_error + matrix" where
  "take_columns m indices =
     (if list_ex (\<lambda>j. snd (shape m) \<le> j) indices then Inl IndexError
      else Inr \<lparr>shape = (fst (shape m), length indices),
                rows = map (\<lambda>row. map (\<lambda>j. row ! j) indices) (rows m)\<rparr>)"

subsection \<open>\<open>pcd_to_csv\<close>\<close>

text \<open>
  The file written by \<open>pcd_to_csv\<close>: the row given to the first \<open>writerow\<close> and the rows
  given to the following ones, in order.
\<close>

record csv_file =
  header_row :: "string list"
  data_rows :: "cell list list"

definition selected_fields :: "string list" where
  "selected_fields = [''x'', ''y'', ''z'', ''intensity'']"

text \<open>
  \<open>pcd_to_csv\<close> (lines 205-219). An error before line 215 leaves no file. Line 212
  keeps, for each of the four names that occurs in \<open>fields\<close>, its first position there;
  \<open>index_of\<close> is \<open>None\<close> exactly for the names that do not occur.
\<close>

definition selected_indices :: "string list \<Rightarrow> nat list" where
  "selected_indices names = List.map_filter (\<lambda>field. index_of field names) selected_fields"

definition pcd_to_csv ::
  "(nat \<Rightarrow> nat) \<Rightarrow> (np_type list \<Rightarrow> string \<Rightarrow> pcd_error + string list) \<Rightarrow> string
     \<Rightarrow> pcd_error + csv_file" where
  "pcd_to_csv rng loadtxt pcd =
     bindE (from_fileobj rng loadtxt pcd) (\<lambda>point_cloud.
       let fields = PointCloud_fields point_cloud in
       bindE (numpy point_cloud (Some fields)) (\<lambda>points.
       bindE (take_columns points (selected_indices fields)) (\<lambda>selected_points.
         Inr \<lparr>header_row = selected_fields, data_rows = rows selected_points\<rparr>)))"

section \<open>Properties of the canopy metrics\<close>

lemma bindE_Inr [simp]: "bindE (Inr x) f = f x"
  by (simp add: bindE_def)

lemma bindE_Inl [simp]: "bindE (Inl e) f = Inl e"
  by (simp add: bindE_def)

lemma percentile_total:
  assumes "0 \<le> q" "q \<le> 100" "a \<noteq> []"
  shows "\<exists>v. percentile a q = Inr v"
  using assms by (simp add: percentile_def Let_def)

lemma above_015_nonempty: "above_015 kept \<noteq> [] \<Longrightarrow> kept \<noteq> []"
  by (auto simp add: above_015_def)

subsection \<open>C1: the ground level\<close>

text \<open>
  C1, as stated, fails. Three points with Z = 0, 1, 2 and X = 0, 10, 0 give the threshold
  \<open>0 + 0.231 * 10 = 2.31\<close>, so all three are candidates; the 90th percentile of their Z
  is \<open>1.8\<close>, only the point with Z = 2 is at or above it, and \<open>fit_plane\<close> raises at
  line 14 for a refined subset of one point. No ground level is returned although the
  candidate set has three points.
\<close>

theorem ground_level_three_candidates_counterexample:
  "ground_threshold
     [\<lparr>px = 0, py = 0, pz = 0, pint = 0\<rparr>, \<lparr>px = 10, py = 0, pz = 1, pint = 0\<rparr>,
      \<lparr>px = 0, py = 0, pz = 2, pint = 0\<rparr>] = Inr 2.31
   \<and> length (ground_points 2.31
     [\<lparr>px = 0, py = 0, pz = 0, pint = 0\<rparr>, \<lparr>px = 10, py = 0, pz = 1, pint = 0\<rparr>,
      \<lparr>px = 0, py = 0, pz = 2, pint = 0\<rparr>]) = 3
   \<and> estimate_ground_level
     [\<lparr>px = 0, py = 0, pz = 0, pint = 0\<rparr>, \<lparr>px = 10, py = 0, pz = 1, pint = 0\<rparr>,
      \<lparr>px = 0, py = 0, pz = 2, pint = 0\<rparr>] = Inl NotEnoughPointsToFitPlane"
  by (simp add: estimate_ground_level_def ground_threshold_def np_min_def np_max_def
      ground_points_def selected_ground_points_def percentile_def fit_plane_def Let_def)

text \<open>
  C1, amended: for a non-empty cloud with threshold \<open>thr\<close>, fewer than 3 candidates
  (Z \<open>\<le>\<close> thr) make the ground stage fail (line 65). With at least 3 candidates the 90th
  percentile of the candidate Z exists, and the stage returns the mean Z of the refined
  subset (the candidates at or above that percentile) when the refined subset has at
  least 3 points, and fails (line 14) when it has fewer.
\<close>

theorem ground_level_mean_of_refined:
  assumes "ground_threshold points = Inr thr"
  shows "(length (ground_points thr points) < 3 \<longrightarrow>
           estimate_ground_level points = Inl InsufficientGroundPoints)
       \<and> (3 \<le> length (ground_points thr points) \<longrightarrow>
           (\<exists>ground_z_90th.
              percentile (map pz (ground_points thr points)) 90 = Inr ground_z_90th
            \<and> estimate_ground_level points =
                (let refined = filter (\<lambda>p. ground_z_90th \<le> pz p) (ground_points thr points)
                 in if length refined < 3 then Inl NotEnoughPointsToFitPlane
                    else Inr (sum_list (map pz refined) / real (length refined)))))"
proof (intro conjI impI)
  assume "length (ground_points thr points) < 3"
  then show "estimate_ground_level points = Inl InsufficientGroundPoints"
    using assms by (simp add: estimate_ground_level_def Let_def)
next
  assume len: "3 \<le> length (ground_points thr points)"
  then have "map pz (ground_points thr points) \<noteq> []" by auto
  then obtain g where g: "percentile (map pz (ground_points thr points)) 90 = Inr g"
    using percentile_total [of 90] by force
  have "estimate_ground_level points =
          fit_plane (filter (\<lambda>p. g \<le> pz p) (ground_points thr points))"
    using assms len g
    by (simp add: estimate_ground_level_def Let_def selected_ground_points_def)
  then show "\<exists>ground_z_90th.
              percentile (map pz (ground_points thr points)) 90 = Inr ground_z_90th
            \<and> estimate_ground_level points =
                (let refined = filter (\<lambda>p. ground_z_90th \<le> pz p) (ground_points thr points)
                 in if length refined < 3 then Inl NotEnoughPointsToFitPlane
                    else Inr (sum_list (map pz refined) / real (length refined)))"
    using g by (auto simp add: fit_plane_def np_mean_def Let_def)
qed

text \<open>
  Witness: four points on one vertical line, three of them at Z = 1. The threshold is 1,
  the three low points are the candidates and the refined subset, and the ground level
  is their mean Z, 1.
\<close>

theorem ground_level_mean_of_refined_witness:
  "ground_threshold
     [\<lparr>px = 0, py = 0, pz = 1, pint = 0\<rparr>, \<lparr>px = 0, py = 1, pz = 1, pint = 0\<rparr>,
      \<lparr>px = 0, py = 2, pz = 1, pint = 0\<rparr>, \<lparr>px = 0, py = 3, pz = 1.1, pint = 0\<rparr>] = Inr 1
   \<and> length (ground_points 1
     [\<lparr>px = 0, py = 0, pz = 1, pint = 0\<rparr>, \<lparr>px = 0, py = 1, pz = 1, pint = 0\<rparr>,
      \<lparr>px = 0, py = 2, pz = 1, pint = 0\<rparr>, \<lparr>px = 0, py = 3, pz = 1.1, pint = 0\<rparr>]) = 3
   \<and> estimate_ground_level
     [\<lparr>px = 0, py = 0, pz = 1, pint = 0\<rparr>, \<lparr>px = 0, py = 1, pz = 1, pint = 0\<rparr>,
      \<lparr>px = 0, py = 2, pz = 1, pint = 0\<rparr>, \<lparr>px = 0, py = 3, pz = 1.1, pint = 0\<rparr>] = Inr 1"
proof -
  let ?pts = "[\<lparr>px = 0, py = 0, pz = 1, pint = 0\<rparr>, \<lparr>px = 0, py = 1, pz = 1, pint = 0\<rparr>,
      \<lparr>px = 0, py = 2, pz = 1, pint = 0\<rparr>, \<lparr>px = 0, py = 3, pz = 1.1, pint = (0::real)\<rparr>]"
  have t: "ground_threshold ?pts = Inr 1"
    by (simp add: ground_threshold_def np_min_def np_max_def)
  have l: "length (ground_points 1 ?pts) = 3"
    by (simp add: ground_points_def)
  have p: "percentile (map pz (ground_points 1 ?pts)) 90 = Inr 1"
    by (simp add: ground_points_def percentile_def Let_def)
  have f: "filter (\<lambda>p. 1 \<le> pz p) (ground_points 1 ?pts) = ground_points 1 ?pts"
    by (simp add: ground_points_def)
  have m: "sum_list (map pz (ground_points 1 ?pts)) = 3"
    by (simp add: ground_points_def)
  from ground_level_mean_of_refined [OF t] l p
  have "estimate_ground_level ?pts =
          (let refined = filter (\<lambda>p. 1 \<le> pz p) (ground_points 1 ?pts)
           in if length refined < 3 then Inl NotEnoughPointsToFitPlane
              else Inr (sum_list (map pz refined) / real (length refined)))"
    by simp
  then have "estimate_ground_level ?pts = Inr 1"
    using l m by (simp add: f Let_def)
  then show ?thesis using t l by simp
qed

subsection \<open>C3: the percentile scenario\<close>

text \<open>
  C3, as stated, fails: on the ten heights of the scenario the virtual index of the 50th
  percentile is \<open>9 * 0.5 = 4.5\<close>, halfway between the sorted entries \<open>0.5\<close> and
  \<open>0.6\<close>, so the linear-interpolation percentile is \<open>0.55\<close>, not \<open>0.575\<close>.
\<close>

theorem p50_scenario_counterexample:
  "percentile [0.15, 0.2, 0.3, 0.4, 0.5, 0.6, 0.7, 0.8, 0.9, 1.0] 50 \<noteq> Inr 0.575"
  by (simp add: percentile_def Let_def)

text \<open>
  C3, amended: for the analysis set with heights
  \<open>[0.15, 0.2, 0.3, 0.4, 0.5, 0.6, 0.7, 0.8, 0.9, 1.0]\<close> the 50th percentile is
  \<open>0.55\<close>, and the number of analysis points at or above it is 5.
\<close>

theorem p50_scenario:
  "percentile (map pz (map (\<lambda>z. \<lparr>px = 0, py = 0, pz = z, pint = 0\<rparr>)
       [0.15, 0.2, 0.3, 0.4, 0.5, 0.6, 0.7, 0.8, 0.9, 1.0])) 50 = Inr 0.55
   \<and> count_top (map (\<lambda>z. \<lparr>px = 0, py = 0, pz = z, pint = 0\<rparr>)
       [0.15, 0.2, 0.3, 0.4, 0.5, 0.6, 0.7, 0.8, 0.9, 1.0]) 0.55 = 5"
  by (simp add: percentile_def Let_def count_top_def)

subsection \<open>C4: the plant-height statistic\<close>

text \<open>
  C4, as stated, fails where the analysis set is empty and the cloud above the ground is
  not. Four points on one vertical line with Z = 1, 1, 1, 1.1: the ground level is 1, the
  normalized heights are 0, 0, 0, 0.1, none reaches 0.15, and the function returns 0 at
  line 97. The 99.5th percentile of the four normalized heights is \<open>0.0985\<close>.
\<close>

theorem plant_height_empty_analysis_counterexample:
  "calculate_plant_height_and_plot
     [\<lparr>px = 0, py = 0, pz = 1, pint = 0\<rparr>, \<lparr>px = 0, py = 0, pz = 1, pint = 0\<rparr>,
      \<lparr>px = 0, py = 0, pz = 1, pint = 0\<rparr>, \<lparr>px = 0, py = 0, pz = 1.1, pint = 0\<rparr>] = Inr (None, 0)
   \<and> estimate_ground_level
     [\<lparr>px = 0, py = 0, pz = 1, pint = 0\<rparr>, \<lparr>px = 0, py = 0, pz = 1, pint = 0\<rparr>,
      \<lparr>px = 0, py = 0, pz = 1, pint = 0\<rparr>, \<lparr>px = 0, py = 0, pz = 1.1, pint = 0\<rparr>] = Inr 1
   \<and> percentile (map pz (above_plane
     [\<lparr>px = 0, py = 0, pz = 1, pint = 0\<rparr>, \<lparr>px = 0, py = 0, pz = 1, pint = 0\<rparr>,
      \<lparr>px = 0, py = 0, pz = 1, pint = 0\<rparr>, \<lparr>px = 0, py = 0, pz = 1.1, pint = 0\<rparr>] 1)) 99.5
     = Inr 0.0985"
  by (simp add: calculate_plant_height_and_plot_def estimate_ground_level_def
      ground_threshold_def np_min_def np_max_def np_mean_def
      ground_points_def selected_ground_points_def percentile_def fit_plane_def Let_def
      canopy_metrics_def above_plane_def above_015_def)

text \<open>
  C4, amended: when the ground stage returns a ground level and the analysis set (the
  normalized heights of at least 0.15) is not empty, the function returns, and the
  returned and reported plant height is the 99.5th percentile of the normalized heights
  of all points kept by the ground removal: one height for every point whose Z is at or
  above the ground level, the low ones included.
\<close>

theorem plant_height_is_p995_of_kept:
  assumes "estimate_ground_level points = Inr ground_level"
    and "above_015 (above_plane points ground_level) \<noteq> []"
  shows "\<exists>rep h. calculate_plant_height_and_plot points = Inr (Some rep, h)
           \<and> p99_top_z rep = h
           \<and> percentile (map pz (above_plane points ground_level)) 99.5 = Inr h
           \<and> length (above_plane points ground_level)
               = length (filter (\<lambda>p. ground_level \<le> pz p) points)"
proof -
  let ?kept = "above_plane points ground_level"
  let ?a = "above_015 ?kept"
  have ne: "map pz ?a \<noteq> []" using assms(2) by simp
  have kne: "map pz ?kept \<noteq> []" using above_015_nonempty [OF assms(2)] by simp
  obtain q50 where q50: "percentile (map pz ?a) 50 = Inr q50"
    using percentile_total [OF _ _ ne, of 50] by auto
  obtain q60 where q60: "percentile (map pz ?a) 60 = Inr q60"
    using percentile_total [OF _ _ ne, of 60] by auto
  obtain q70 where q70: "percentile (map pz ?a) 70 = Inr q70"
    using percentile_total [OF _ _ ne, of 70] by auto
  obtain q80 where q80: "percentile (map pz ?a) 80 = Inr q80"
    using percentile_total [OF _ _ ne, of 80] by auto
  obtain q90 where q90: "percentile (map pz ?a) 90 = Inr q90"
    using percentile_total [OF _ _ ne, of 90] by auto
  obtain h where h: "percentile (map pz ?kept) 99.5 = Inr h"
    using percentile_total [OF _ _ kne, of "99.5"] by auto
  have len: "length ?kept = length (filter (\<lambda>p. ground_level \<le> pz p) points)"
    by (simp add: above_plane_def filter_map comp_def)
  have "\<exists>rep. canopy_metrics points ground_level = Inr (Some rep, h) \<and> p99_top_z rep = h"
    using assms(2) q50 q60 q70 q80 q90 h
    by (simp add: canopy_metrics_def Let_def)
  then show ?thesis
    using assms(1) h len by (auto simp add: calculate_plant_height_and_plot_def)
qed

text \<open>
  Witness: the cloud of the counterexample with one more point at Z = 2. The normalized
  heights are 0, 0, 0, 0.1, 1; the analysis set is the last point alone, and the returned
  height \<open>0.982\<close> is the percentile over all five heights (over the analysis set alone
  it would be 1).
\<close>

theorem plant_height_is_p995_of_kept_witness:
  "estimate_ground_level
     [\<lparr>px = 0, py = 0, pz = 1, pint = 0\<rparr>, \<lparr>px = 0, py = 0, pz = 1, pint = 0\<rparr>,
      \<lparr>px = 0, py = 0, pz = 1, pint = 0\<rparr>, \<lparr>px = 0, py = 0, pz = 1.1, pint = 0\<rparr>,
      \<lparr>px = 0, py = 0, pz = 2, pint = 0\<rparr>] = Inr 1
   \<and> above_015 (above_plane
     [\<lparr>px = 0, py = 0, pz = 1, pint = 0\<rparr>, \<lparr>px = 0, py = 0, pz = 1, pint = 0\<rparr>,
      \<lparr>px = 0, py = 0, pz = 1, pint = 0\<rparr>, \<lparr>px = 0, py = 0, pz = 1.1, pint = 0\<rparr>,
      \<lparr>px = 0, py = 0, pz = 2, pint = 0\<rparr>] 1) \<noteq> []
   \<and> (\<exists>rep. calculate_plant_height_and_plot
     [\<lparr>px = 0, py = 0, pz = 1, pint = 0\<rparr>, \<lparr>px = 0, py = 0, pz = 1, pint = 0\<rparr>,
      \<lparr>px = 0, py = 0, pz = 1, pint = 0\<rparr>, \<lparr>px = 0, py = 0, pz = 1.1, pint = 0\<rparr>,
      \<lparr>px = 0, py = 0, pz = 2, pint = 0\<rparr>] = Inr (Some rep, 0.982))"
proof -
  let ?pts = "[\<lparr>px = 0, py = 0, pz = 1, pint = 0\<rparr>, \<lparr>px = 0, py = 0, pz = 1, pint = 0\<rparr>,
      \<lparr>px = 0, py = 0, pz = 1, pint = 0\<rparr>, \<lparr>px = 0, py = 0, pz = 1.1, pint = 0\<rparr>,
      \<lparr>px = 0, py = 0, pz = 2, pint = (0::real)\<rparr>]"
  have g: "estimate_ground_level ?pts = Inr 1"
    by (simp add: estimate_ground_level_def
      ground_threshold_def np_min_def np_max_def np_mean_def
      ground_points_def selected_ground_points_def percentile_def fit_plane_def Let_def)
  have a: "above_015 (above_plane ?pts 1) \<noteq> []"
    by (simp add: above_plane_def above_015_def)
  have p: "percentile (map pz (above_plane ?pts 1)) 99.5 = Inr 0.982"
    by (simp add: above_plane_def percentile_def Let_def)
  show ?thesis
    using plant_height_is_p995_of_kept [OF g a] g a p by auto
qed

subsection \<open>C7: the empty analysis set\<close>

text \<open>
  C7, as stated, fails: with an empty analysis set the function emits no metrics at all,
  rather than metrics that are all zero. Four points on one vertical line with
  Z = 1, 1, 1, 1.1 have the ground level 1 and the normalized heights 0, 0, 0, 0.1, all
  below 0.15. Lines 95-97 print \<open>"No points above 0.15 m. Exiting."\<close> and return 0:
  the result carries no report, so it is not a report whose nineteen entries are zero.
\<close>

theorem empty_analysis_no_metrics_counterexample:
  "calculate_plant_height_and_plot
     [\<lparr>px = 2, py = 0, pz = 1, pint = 7\<rparr>, \<lparr>px = 2, py = 1, pz = 1, pint = 7\<rparr>,
      \<lparr>px = 2, py = 2, pz = 1, pint = 7\<rparr>, \<lparr>px = 2, py = 3, pz = 1.1, pint = 7\<rparr>]
     = Inr (None, 0)
   \<and> calculate_plant_height_and_plot
     [\<lparr>px = 2, py = 0, pz = 1, pint = 7\<rparr>, \<lparr>px = 2, py = 1, pz = 1, pint = 7\<rparr>,
      \<lparr>px = 2, py = 2, pz = 1, pint = 7\<rparr>, \<lparr>px = 2, py = 3, pz = 1.1, pint = 7\<rparr>]
     \<noteq> Inr (Some \<lparr>n_above_015 = 0, p50 = 0, p60 = 0, p70 = 0, p80 = 0, p90 = 0,
                    count_top_50 = 0, count_top_60 = 0, count_top_70 = 0, count_top_80 = 0,
                    count_top_90 = 0, avg_int_50 = 0, avg_int_60 = 0, avg_int_70 = 0,
                    avg_int_80 = 0, avg_int_90 = 0, bounding_box_area = 0,
                    bounding_box_volume = 0, p99_top_z = 0\<rparr>, 0)"
  by (simp add: calculate_plant_height_and_plot_def estimate_ground_level_def
      ground_threshold_def np_min_def np_max_def np_mean_def
      ground_points_def selected_ground_points_def percentile_def fit_plane_def Let_def
      canopy_metrics_def above_plane_def above_015_def)

text \<open>
  C7, amended: when the ground stage returns a ground level and no point kept by the
  ground removal has a normalized height of at least 0.15 (the analysis set is empty),
  the function prints no metrics, returns 0 as the plant height and stops; it does not
  raise an error.
\<close>

theorem empty_analysis_returns_zero:
  assumes "estimate_ground_level points = Inr ground_level"
    and "\<forall>r \<in> set (above_plane points ground_level). pz r < 0.15"
  shows "calculate_plant_height_and_plot points = Inr (None, 0)"
proof -
  have "above_015 (above_plane points ground_level) = []"
    using assms(2) by (auto simp add: above_015_def filter_empty_conv)
  then show ?thesis
    using assms(1) by (simp add: calculate_plant_height_and_plot_def canopy_metrics_def Let_def)
qed

text \<open>
  Witness: four points on one vertical line with Z = 1, 1, 1, 1.1; the ground level is 1
  and the normalized heights 0, 0, 0, 0.1 are all below 0.15.
\<close>

theorem empty_analysis_returns_zero_witness:
  "estimate_ground_level
     [\<lparr>px = 2, py = 0, pz = 1, pint = 7\<rparr>, \<lparr>px = 2, py = 1, pz = 1, pint = 7\<rparr>,
      \<lparr>px = 2, py = 2, pz = 1, pint = 7\<rparr>, \<lparr>px = 2, py = 3, pz = 1.1, pint = 7\<rparr>] = Inr 1
   \<and> map pz (above_plane
     [\<lparr>px = 2, py = 0, pz = 1, pint = 7\<rparr>, \<lparr>px = 2, py = 1, pz = 1, pint = 7\<rparr>,
      \<lparr>px = 2, py = 2, pz = 1, pint = 7\<rparr>, \<lparr>px = 2, py = 3, pz = 1.1, pint = 7\<rparr>] 1)
       = [0, 0, 0, 0.1]
   \<and> calculate_plant_height_and_plot
     [\<lparr>px = 2, py = 0, pz = 1, pint = 7\<rparr>, \<lparr>px = 2, py = 1, pz = 1, pint = 7\<rparr>,
      \<lparr>px = 2, py = 2, pz = 1, pint = 7\<rparr>, \<lparr>px = 2, py = 3, pz = 1.1, pint = 7\<rparr>] = Inr (None, 0)"
proof -
  let ?pts = "[\<lparr>px = 2, py = 0, pz = 1, pint = 7\<rparr>, \<lparr>px = 2, py = 1, pz = 1, pint = 7\<rparr>,
      \<lparr>px = 2, py = 2, pz = 1, pint = 7\<rparr>, \<lparr>px = 2, py = 3, pz = 1.1, pint = (7::real)\<rparr>]"
  have g: "estimate_ground_level ?pts = Inr 1"
    by (simp add: estimate_ground_level_def
      ground_threshold_def np_min_def np_max_def np_mean_def
      ground_points_def selected_ground_points_def percentile_def fit_plane_def Let_def)
  have m: "map pz (above_plane ?pts 1) = [0, 0, 0, 0.1]"
    by (simp add: above_plane_def)
  have a: "\<forall>r \<in> set (above_plane ?pts 1). pz r < 0.15"
    by (simp add: above_plane_def)
  show ?thesis
    using empty_analysis_returns_zero [OF g a] g m by simp
qed

section \<open>Properties of the container decoder\<close>

subsection \<open>Errors in a list, the record stride, the records of a buffer\<close>

lemma mapE_list_all2: "list_all2 (\<lambda>x y. f x = Inr y) xs ys \<Longrightarrow> mapE f xs = Inr ys"
  by (induction xs ys rule: list_all2_induct) simp_all

lemma mapE_Inr_D: "mapE f xs = Inr ys \<Longrightarrow> list_all2 (\<lambda>x y. f x = Inr y) xs ys"
  by (induction xs arbitrary: ys) (auto simp add: bindE_def split: sum.splits)

lemma mapE_Inr_iff: "mapE f xs = Inr ys \<longleftrightarrow> list_all2 (\<lambda>x y. f x = Inr y) xs ys"
  using mapE_list_all2 mapE_Inr_D by blast

lemma table_itemsize:
  "map_of PCD_TYPE_TO_NUMPY_TYPE (t, s) = Some ty \<Longrightarrow> int (itemsize ty) = s"
  by (auto simp add: PCD_TYPE_TO_NUMPY_TYPE_def split: if_splits)

lemma dtype_itemsize_append [simp]:
  "dtype_itemsize (a @ b) = dtype_itemsize a + dtype_itemsize b"
  by (simp add: dtype_itemsize_def)

lemma dtype_itemsize_Nil [simp]: "dtype_itemsize [] = 0"
  by (simp add: dtype_itemsize_def)

lemma dtype_itemsize_concat:
  "dtype_itemsize (concat cols) = sum_list (map dtype_itemsize cols)"
  by (induction cols) simp_all

lemma dtype_itemsize_same:
  "dtype_itemsize (map (\<lambda>c. (f c, t)) cs) = length cs * itemsize t"
  by (induction cs) (simp_all add: dtype_itemsize_def)

lemma dtype_columns_Inr:
  assumes "dtype_columns md i = Inr cols"
  shows "\<exists>ty. i < length (md_type md) \<and> i < length (md_size md) \<and> i < length (md_count md)
           \<and> map_of PCD_TYPE_TO_NUMPY_TYPE (md_type md ! i, md_size md ! i) = Some ty
           \<and> cols = (if md_count md ! i = 1 then [(md_fields md ! i, ty)]
                 else map (\<lambda>c. (md_fields md ! i @ ''__'' @ format_04d c, ty))
                        [0 ..< nat (md_count md ! i)])"
  using assms
  by (simp add: dtype_columns_def Let_def split: if_splits option.splits)

lemma dtype_columns_itemsize:
  assumes "dtype_columns md i = Inr cols" and "0 < md_count md ! i"
  shows "int (dtype_itemsize cols) = md_size md ! i * md_count md ! i"
proof -
  from dtype_columns_Inr [OF assms(1)] obtain ty where
    ty: "map_of PCD_TYPE_TO_NUMPY_TYPE (md_type md ! i, md_size md ! i) = Some ty"
    and cols: "cols = (if md_count md ! i = 1 then [(md_fields md ! i, ty)]
                 else map (\<lambda>c. (md_fields md ! i @ ''__'' @ format_04d c, ty))
                        [0 ..< nat (md_count md ! i)])"
    by blast
  have sz: "int (itemsize ty) = md_size md ! i" using table_itemsize [OF ty] .
  show ?thesis
  proof (cases "md_count md ! i = 1")
    case True
    then show ?thesis using cols sz by (simp add: dtype_itemsize_def)
  next
    case False
    then have "dtype_itemsize cols = nat (md_count md ! i) * itemsize ty"
      using cols dtype_itemsize_same [of "\<lambda>c. md_fields md ! i @ ''__'' @ format_04d c" ty]
      by simp
    then show ?thesis using sz assms(2) by (simp add: mult.commute)
  qed
qed

lemma sum_list_nth_lessThan:
  "sum_list (map f ys) = (\<Sum>i<length ys. f (ys ! i))"
proof -
  have "sum_list (map f ys) = (\<Sum>i = 0..<length (map f ys). map f ys ! i)"
    by (rule sum_list_sum_nth)
  also have "\<dots> = (\<Sum>i<length ys. f (ys ! i))"
    by (simp add: atLeast0LessThan)
  finally show ?thesis .
qed

lemma build_dtype_Inr:
  assumes "build_dtype md = Inr dt"
  shows "\<exists>cols. mapE (dtype_columns md) [0 ..< length (md_fields md)] = Inr cols
           \<and> dt = concat cols \<and> distinct (map fst dt)"
  using assms
  by (auto simp add: build_dtype_def np_dtype_def bindE_def split: sum.splits if_splits)

lemma build_dtype_stride:
  assumes "build_dtype md = Inr dt"
    and "\<forall>i<length (md_fields md). 0 < md_count md ! i"
  shows "int (dtype_itemsize dt) = (\<Sum>i<length (md_fields md). md_size md ! i * md_count md ! i)"
proof -
  let ?n = "length (md_fields md)"
  from build_dtype_Inr [OF assms(1)] obtain cols where
    cols: "mapE (dtype_columns md) [0 ..< ?n] = Inr cols" and dt: "dt = concat cols"
    by blast
  from cols have l2: "list_all2 (\<lambda>i c. dtype_columns md i = Inr c) [0 ..< ?n] cols"
    by (simp add: mapE_Inr_iff)
  then have len: "length cols = ?n" by (auto dest: list_all2_lengthD)
  have each: "\<And>i. i < ?n \<Longrightarrow> dtype_columns md i = Inr (cols ! i)"
    using l2 by (auto simp add: list_all2_conv_all_nth)
  have "int (dtype_itemsize dt) = int (\<Sum>i<?n. dtype_itemsize (cols ! i))"
    using dt len by (simp add: dtype_itemsize_concat sum_list_nth_lessThan)
  also have "\<dots> = (\<Sum>i<?n. int (dtype_itemsize (cols ! i)))" by simp
  also have "\<dots> = (\<Sum>i<?n. md_size md ! i * md_count md ! i)"
  proof (rule sum.cong)
    fix i assume "i \<in> {..<?n}"
    then have i: "i < ?n" by simp
    show "int (dtype_itemsize (cols ! i)) = md_size md ! i * md_count md ! i"
      using dtype_columns_itemsize [OF each [OF i]] assms(2) i by simp
  qed simp
  finally show ?thesis .
qed

lemma concat_chunks:
  "length xs = k * n \<Longrightarrow> concat (map (\<lambda>i. take n (drop (i * n) xs)) [0 ..< k]) = xs"
proof (induction k arbitrary: xs)
  case 0
  then show ?case by simp
next
  case (Suc k)
  have u: "[0 ..< Suc k] = 0 # map Suc [0 ..< k]"
    by (simp add: upt_conv_Cons map_Suc_upt del: upt_Suc)
  have "concat (map (\<lambda>i. take n (drop (i * n) xs)) [0 ..< Suc k]) =
          take n xs @ concat (map (\<lambda>i. take n (drop (i * n) (drop n xs))) [0 ..< k])"
    unfolding u by (simp add: comp_def add.commute)
  also have "concat (map (\<lambda>i. take n (drop (i * n) (drop n xs))) [0 ..< k]) = drop n xs"
    using Suc.prems by (intro Suc.IH) simp
  finally show ?case by simp
qed

lemma np_frombuffer_exact:
  assumes "0 < dtype_itemsize dt" and "length buffer = k * dtype_itemsize dt"
  shows "\<exists>rs. np_frombuffer buffer dt = Inr \<lparr>dtype = dt, records = rs\<rparr>
           \<and> length rs = k \<and> concat rs = buffer"
  using assms by (simp add: np_frombuffer_def Let_def concat_chunks)

lemma table_itemsize_pos:
  "map_of PCD_TYPE_TO_NUMPY_TYPE (t, s) = Some ty \<Longrightarrow> 0 < s"
  by (auto simp add: PCD_TYPE_TO_NUMPY_TYPE_def split: if_splits)

lemma build_dtype_itemsize_pos:
  assumes "build_dtype md = Inr dt"
    and "\<forall>i<length (md_fields md). 0 < md_count md ! i"
    and "md_fields md \<noteq> []"
  shows "0 < dtype_itemsize dt"
proof -
  let ?n = "length (md_fields md)"
  from build_dtype_Inr [OF assms(1)] obtain cols where
    cols: "mapE (dtype_columns md) [0 ..< ?n] = Inr cols"
    by blast
  then have l2: "list_all2 (\<lambda>i c. dtype_columns md i = Inr c) [0 ..< ?n] cols"
    by (simp add: mapE_Inr_iff)
  have each: "\<And>i. i < ?n \<Longrightarrow> dtype_columns md i = Inr (cols ! i)"
    using l2 by (auto simp add: list_all2_conv_all_nth)
  have pos: "\<And>i. i < ?n \<Longrightarrow> 0 < md_size md ! i * md_count md ! i"
  proof -
    fix i assume i: "i < ?n"
    from dtype_columns_Inr [OF each [OF i]] obtain ty where
      "map_of PCD_TYPE_TO_NUMPY_TYPE (md_type md ! i, md_size md ! i) = Some ty" by blast
    then have "0 < md_size md ! i" by (rule table_itemsize_pos)
    then show "0 < md_size md ! i * md_count md ! i" using assms(2) i by simp
  qed
  have "0 < (\<Sum>i<?n. md_size md ! i * md_count md ! i)"
    using pos assms(3) by (intro sum_pos) auto
  then show ?thesis using build_dtype_stride [OF assms(1,2)] by simp
qed


subsection \<open>C2: the binary body\<close>

text \<open>
  C2, as stated, fails for a record stride of one byte. A header with the single field
  \<open>x\<close> of type \<open>U\<close>, size 1, and \<open>POINTS 2\<close> has stride 1; on a body of one byte, one
  less than \<open>points * stride\<close>, \<open>fp.read\<close> returns that byte and \<open>np.frombuffer\<close>
  builds one record: no error is raised.
\<close>

theorem binary_body_stride_one_counterexample:
  "build_dtype
     \<lparr>md_fields = [''x''], md_size = [1], md_type = [''U''], md_count = [1], md_points = 2,
      md_width = 2, md_height = 1, md_version = ''0.7'', md_viewpoint = default_viewpoint,
      md_data = BINARY\<rparr> = Inr [(''x'', uint8)]
   \<and> dtype_itemsize [(''x'', uint8)] = 1
   \<and> parse_pc_data (\<lambda>ts text. Inl ValueError_loadtxt) ''a''
     \<lparr>md_fields = [''x''], md_size = [1], md_type = [''U''], md_count = [1], md_points = 2,
      md_width = 2, md_height = 1, md_version = ''0.7'', md_viewpoint = default_viewpoint,
      md_data = BINARY\<rparr> = Inr \<lparr>dtype = [(''x'', uint8)], records = [''a'']\<rparr>"
  by (simp add: parse_pc_data_def build_dtype_def dtype_columns_def np_dtype_def
      PCD_TYPE_TO_NUMPY_TYPE_def dtype_itemsize_def np_frombuffer_def Let_def)


text \<open>
  C2, amended: for a binary header with at least one field, positive counts, a point
  count that is not negative and a layout that builds, the record stride is the sum over
  the header fields of \<open>size[i] * count[i]\<close>; a body that starts with \<open>points * stride\<close>
  bytes decodes into \<open>points\<close> records that hold exactly those bytes, whatever follows
  them; a body one byte shorter raises (\<open>ValueError\<close> of \<open>np.frombuffer\<close>) when the
  stride is at least 2, and decodes into \<open>points - 1\<close> records when the stride is 1.
\<close>

theorem binary_body_stride_and_length:
  assumes "build_dtype md = Inr dt"
    and "md_data md = BINARY"
    and "0 \<le> md_points md"
    and "md_fields md \<noteq> []"
    and "\<forall>i<length (md_fields md). 0 < md_count md ! i"
  shows "int (dtype_itemsize dt) = (\<Sum>i<length (md_fields md). md_size md ! i * md_count md ! i)
       \<and> (\<forall>body extra. length body = nat (md_points md) * dtype_itemsize dt \<longrightarrow>
            (\<exists>rs. parse_pc_data loadtxt (body @ extra) md = Inr \<lparr>dtype = dt, records = rs\<rparr>
                \<and> length rs = nat (md_points md) \<and> concat rs = body))
       \<and> (\<forall>body. 2 \<le> dtype_itemsize dt
              \<and> length body + 1 = nat (md_points md) * dtype_itemsize dt \<longrightarrow>
            parse_pc_data loadtxt body md = Inl ValueError_buffer_size)
       \<and> (\<forall>body. dtype_itemsize dt = 1 \<and> length body + 1 = nat (md_points md) \<longrightarrow>
            (\<exists>rs. parse_pc_data loadtxt body md = Inr \<lparr>dtype = dt, records = rs\<rparr>
                \<and> length rs = nat (md_points md) - 1))"
proof (intro conjI allI impI)
  show "int (dtype_itemsize dt) = (\<Sum>i<length (md_fields md). md_size md ! i * md_count md ! i)"
    using build_dtype_stride [OF assms(1,5)] .
next
  fix body extra :: string
  assume len: "length body = nat (md_points md) * dtype_itemsize dt"
  have pos: "0 < dtype_itemsize dt"
    using build_dtype_itemsize_pos [OF assms(1,5,4)] .
  have n: "nat (md_points md * int (dtype_itemsize dt)) = nat (md_points md) * dtype_itemsize dt"
    using assms(3) by (simp add: nat_mult_distrib)
  show "\<exists>rs. parse_pc_data loadtxt (body @ extra) md = Inr \<lparr>dtype = dt, records = rs\<rparr>
            \<and> length rs = nat (md_points md) \<and> concat rs = body"
  proof (cases "0 < md_points md")
    case True
    have "take (nat (md_points md * int (dtype_itemsize dt))) (body @ extra) = body"
      using len n by simp
    then have "parse_pc_data loadtxt (body @ extra) md = np_frombuffer body dt"
      using assms(1,2) True by (simp add: parse_pc_data_def Let_def)
    then show ?thesis using np_frombuffer_exact [OF pos len] by simp
  next
    case False
    then have "md_points md = 0" using assms(3) by simp
    then show ?thesis using assms(1) len by (simp add: parse_pc_data_def)
  qed
next
  fix body :: string
  assume a: "2 \<le> dtype_itemsize dt \<and> length body + 1 = nat (md_points md) * dtype_itemsize dt"
  let ?n = "dtype_itemsize dt"
  have n: "nat (md_points md * int ?n) = nat (md_points md) * ?n"
    using assms(3) by (simp add: nat_mult_distrib)
  have p: "0 < md_points md" using a by (cases "md_points md \<le> 0") auto
  have "(length body + 1) mod ?n = 0" using a by simp
  then have m: "length body mod ?n \<noteq> 0"
    using a by (metis One_nat_def Suc_1 Suc_le_lessD add.commute mod_Suc_eq mod_less
        mod_mod_trivial nat.simps(3) plus_1_eq_Suc)
  have "take (nat (md_points md * int ?n)) body = body" using a n by simp
  then have "parse_pc_data loadtxt body md = np_frombuffer body dt"
    using assms(1,2) p by (simp add: parse_pc_data_def Let_def)
  then show "parse_pc_data loadtxt body md = Inl ValueError_buffer_size"
    using a m by (simp add: np_frombuffer_def Let_def)
next
  fix body :: string
  assume a: "dtype_itemsize dt = 1 \<and> length body + 1 = nat (md_points md)"
  have p: "0 < md_points md" using a by (cases "md_points md \<le> 0") auto
  have "take (nat (md_points md * int (dtype_itemsize dt))) body = body" using a by simp
  then have "parse_pc_data loadtxt body md = np_frombuffer body dt"
    using assms(1,2) p by (simp add: parse_pc_data_def Let_def)
  then show "\<exists>rs. parse_pc_data loadtxt body md = Inr \<lparr>dtype = dt, records = rs\<rparr>
                \<and> length rs = nat (md_points md) - 1"
    using a by (auto simp add: np_frombuffer_def Let_def)
qed


text \<open>
  Witness: the header of the scenario of the specification (\<open>x y z intensity\<close>, four
  bytes each, three points). The stride is 16; 48 bytes give three records, 47 bytes the
  error.
\<close>

theorem binary_body_stride_and_length_witness:
  "build_dtype
     \<lparr>md_fields = [''x'', ''y'', ''z'', ''intensity''], md_size = [4, 4, 4, 4],
      md_type = [''F'', ''F'', ''F'', ''F''], md_count = [1, 1, 1, 1], md_points = 3,
      md_width = 3, md_height = 1, md_version = ''0.7'', md_viewpoint = default_viewpoint,
      md_data = BINARY\<rparr>
     = Inr [(''x'', float32), (''y'', float32), (''z'', float32), (''intensity'', float32)]
   \<and> dtype_itemsize
       [(''x'', float32), (''y'', float32), (''z'', float32), (''intensity'', float32)] = 16
   \<and> (\<exists>rs. parse_pc_data (\<lambda>ts text. Inl ValueError_loadtxt) (replicate 48 (CHR ''a''))
     \<lparr>md_fields = [''x'', ''y'', ''z'', ''intensity''], md_size = [4, 4, 4, 4],
      md_type = [''F'', ''F'', ''F'', ''F''], md_count = [1, 1, 1, 1], md_points = 3,
      md_width = 3, md_height = 1, md_version = ''0.7'', md_viewpoint = default_viewpoint,
      md_data = BINARY\<rparr>
     = Inr \<lparr>dtype = [(''x'', float32), (''y'', float32), (''z'', float32),
                       (''intensity'', float32)], records = rs\<rparr>
       \<and> length rs = 3 \<and> concat rs = replicate 48 (CHR ''a''))
   \<and> parse_pc_data (\<lambda>ts text. Inl ValueError_loadtxt) (replicate 47 (CHR ''a''))
     \<lparr>md_fields = [''x'', ''y'', ''z'', ''intensity''], md_size = [4, 4, 4, 4],
      md_type = [''F'', ''F'', ''F'', ''F''], md_count = [1, 1, 1, 1], md_points = 3,
      md_width = 3, md_height = 1, md_version = ''0.7'', md_viewpoint = default_viewpoint,
      md_data = BINARY\<rparr> = Inl ValueError_buffer_size"
proof -
  let ?md = "\<lparr>md_fields = [''x'', ''y'', ''z'', ''intensity''], md_size = [4, 4, 4, 4],
      md_type = [''F'', ''F'', ''F'', ''F''], md_count = [1, 1, 1, 1], md_points = 3,
      md_width = 3, md_height = 1, md_version = ''0.7'', md_viewpoint = default_viewpoint,
      md_data = BINARY\<rparr>"
  let ?dt = "[(''x'', float32), (''y'', float32), (''z'', float32), (''intensity'', float32)]"
  let ?lt = "\<lambda>(ts :: np_type list) (text :: string). (Inl ValueError_loadtxt :: pcd_error + string list)"
  have b: "build_dtype ?md = Inr ?dt"
    by (simp add: build_dtype_def dtype_columns_def np_dtype_def PCD_TYPE_TO_NUMPY_TYPE_def
        upt_rec [of 0] upt_rec [of 1] upt_rec [of 2] upt_rec [of 3] upt_rec [of 4])
  have s: "dtype_itemsize ?dt = 16"
    by (simp add: dtype_itemsize_def)
  have c: "\<forall>i<length (md_fields ?md). 0 < md_count ?md ! i"
    by (simp add: nth_Cons' )
  note t = binary_body_stride_and_length [where loadtxt = ?lt, OF b _ _ _ c]
  have t': "(\<forall>body extra. length body = nat (md_points ?md) * dtype_itemsize ?dt \<longrightarrow>
            (\<exists>rs. parse_pc_data ?lt (body @ extra) ?md = Inr \<lparr>dtype = ?dt, records = rs\<rparr>
                \<and> length rs = nat (md_points ?md) \<and> concat rs = body))
       \<and> (\<forall>body. 2 \<le> dtype_itemsize ?dt
              \<and> length body + 1 = nat (md_points ?md) * dtype_itemsize ?dt \<longrightarrow>
            parse_pc_data ?lt body ?md = Inl ValueError_buffer_size)"
    using t by simp
  have l48: "length (replicate 48 (CHR ''a'')) = nat (md_points ?md) * dtype_itemsize ?dt"
    by (simp add: s)
  have l47: "2 \<le> dtype_itemsize ?dt
      \<and> length (replicate 47 (CHR ''a'')) + 1 = nat (md_points ?md) * dtype_itemsize ?dt"
    by (simp add: s)
  from t' have B: "\<forall>body extra. length body = nat (md_points ?md) * dtype_itemsize ?dt \<longrightarrow>
            (\<exists>rs. parse_pc_data ?lt (body @ extra) ?md = Inr \<lparr>dtype = ?dt, records = rs\<rparr>
                \<and> length rs = nat (md_points ?md) \<and> concat rs = body)"
    by (rule conjunct1)
  from t' have C: "\<forall>body. 2 \<le> dtype_itemsize ?dt
              \<and> length body + 1 = nat (md_points ?md) * dtype_itemsize ?dt \<longrightarrow>
            parse_pc_data ?lt body ?md = Inl ValueError_buffer_size"
    by (rule conjunct2)
  from B [rule_format, OF l48, of "[]"]
  have "\<exists>rs. parse_pc_data ?lt (replicate 48 (CHR ''a'')) ?md
                  = Inr \<lparr>dtype = ?dt, records = rs\<rparr>
                \<and> length rs = 3 \<and> concat rs = replicate 48 (CHR ''a'')"
    by simp
  moreover from C [rule_format, OF l47]
  have "parse_pc_data ?lt (replicate 47 (CHR ''a'')) ?md = Inl ValueError_buffer_size" .
  ultimately show ?thesis using b s by simp
qed

subsection \<open>Columns of a decoded cloud\<close>







lemma zip_as_indices:
  assumes "length xs \<le> length ys"
  shows "zip xs ys = map (\<lambda>i. (xs ! i, ys ! i)) [0 ..< length xs]"
proof (rule nth_equalityI)
  show "length (zip xs ys) = length (map (\<lambda>i. (xs ! i, ys ! i)) [0 ..< length xs])"
    using assms by simp
next
  fix i assume "i < length (zip xs ys)"
  then show "zip xs ys ! i = map (\<lambda>i. (xs ! i, ys ! i)) [0 ..< length xs] ! i"
    by simp
qed

lemma dtype_columns_names:
  assumes "dtype_columns md i = Inr cols"
  shows "map fst cols = expand_field (md_fields md ! i, md_count md ! i)"
proof -
  from dtype_columns_Inr [OF assms] obtain ty where
    "cols = (if md_count md ! i = 1 then [(md_fields md ! i, ty)]
                 else map (\<lambda>c. (md_fields md ! i @ ''__'' @ format_04d c, ty))
                        [0 ..< nat (md_count md ! i)])"
    by blast
  then show ?thesis by (simp add: expand_field_def comp_def)
qed

lemma build_dtype_names:
  assumes "build_dtype md = Inr dt"
  shows "map fst dt = concat (map expand_field (zip (md_fields md) (md_count md)))"
proof -
  let ?n = "length (md_fields md)"
  from build_dtype_Inr [OF assms] obtain cols where
    cols: "mapE (dtype_columns md) [0 ..< ?n] = Inr cols" and dt: "dt = concat cols"
    by blast
  from cols have l2: "list_all2 (\<lambda>i c. dtype_columns md i = Inr c) [0 ..< ?n] cols"
    by (simp add: mapE_Inr_iff)
  then have len: "length cols = ?n" by (auto dest: list_all2_lengthD)
  have each: "\<And>i. i < ?n \<Longrightarrow> dtype_columns md i = Inr (cols ! i)"
    using l2 by (auto simp add: list_all2_conv_all_nth)
  have cnt: "?n \<le> length (md_count md)"
  proof (cases "?n = 0")
    case True
    then show ?thesis by simp
  next
    case False
    then have "?n - 1 < ?n" by simp
    from dtype_columns_Inr [OF each [OF this]] have "?n - 1 < length (md_count md)" by blast
    then show ?thesis by simp
  qed
  have "map (map fst) cols = map (\<lambda>i. expand_field (md_fields md ! i, md_count md ! i)) [0 ..< ?n]"
  proof (rule nth_equalityI)
    show "length (map (map fst) cols) =
          length (map (\<lambda>i. expand_field (md_fields md ! i, md_count md ! i)) [0 ..< ?n])"
      using len by simp
  next
    fix i assume "i < length (map (map fst) cols)"
    then have i: "i < ?n" using len by simp
    show "map (map fst) cols ! i =
          map (\<lambda>i. expand_field (md_fields md ! i, md_count md ! i)) [0 ..< ?n] ! i"
      using i len dtype_columns_names [OF each [OF i]] by simp
  qed
  then have "map fst dt = concat (map (\<lambda>i. expand_field (md_fields md ! i, md_count md ! i)) [0 ..< ?n])"
    using dt by (simp add: map_concat)
  also have "\<dots> = concat (map expand_field (zip (md_fields md) (md_count md)))"
    using zip_as_indices [OF cnt] by (simp add: comp_def)
  finally show ?thesis .
qed

lemma parse_pc_data_dtype:
  assumes "parse_pc_data loadtxt fp md = Inr arr"
  shows "build_dtype md = Inr (dtype arr)"
proof (cases "build_dtype md")
  case (Inl e)
  then show ?thesis using assms by (simp add: parse_pc_data_def)
next
  case (Inr dt)
  have "dtype arr = dt"
    using assms Inr
    by (auto simp add: parse_pc_data_def np_frombuffer_def Let_def bindE_def
        split: if_splits Encoding.splits sum.splits)
  then show ?thesis using Inr by simp
qed

lemma decoded_fields:
  assumes "parse_pc_data loadtxt fp md = Inr arr"
  shows "map fst (dtype arr) = PointCloud_fields \<lparr>metadata = md, pc_data = arr\<rparr>"
  using build_dtype_names [OF parse_pc_data_dtype [OF assms]]
  by (simp add: PointCloud_fields_def)



subsection \<open>C6: column selection by name\<close>




subsection \<open>C10: the CSV header and the selected columns\<close>

lemma from_fileobj_Inr:
  assumes "from_fileobj rng loadtxt fp = Inr pc"
  shows "\<exists>lines rest. read_header [] (readlines fp) = Inr (lines, rest)
           \<and> parse_header rng lines = Inr (metadata pc)
           \<and> parse_pc_data loadtxt (concat rest) (metadata pc) = Inr (pc_data pc)"
  using assms
  by (auto simp add: from_fileobj_def bindE_def split: sum.splits prod.splits)








subsection \<open>Reading and parsing the header lines\<close>

lemma readlines_acc_concat: "concat (readlines_acc cur bs) = rev cur @ bs"
  by (induction bs arbitrary: cur) auto

lemma concat_readlines: "concat (readlines fp) = fp"
  by (simp add: readlines_def readlines_acc_concat)

lemma readlines_acc_append:
  assumes "last pre = CHR 0x0A" and "pre \<noteq> []"
  shows "readlines_acc cur (pre @ tail) = readlines_acc cur pre @ readlines_acc [] tail"
  using assms
proof (induction pre arbitrary: cur)
  case Nil
  then show ?case by simp
next
  case (Cons b bs)
  show ?case
  proof (cases "bs = []")
    case True
    then have "b = CHR 0x0A" using Cons.prems by simp
    then show ?thesis using True by simp
  next
    case False
    then have "last bs = CHR 0x0A" using Cons.prems by simp
    then show ?thesis using Cons.IH False by simp
  qed
qed

lemma readlines_append:
  assumes "last pre = CHR 0x0A" and "pre \<noteq> []"
  shows "readlines (pre @ tail) = readlines pre @ readlines tail"
  using readlines_acc_append [OF assms] by (simp add: readlines_def)

lemma read_header_step:
  assumes "decode bline = Inr decoded"
  shows "read_header lines0 (bline # blines) =
           (if startswith (strip decoded) ''#'' \<or> strip decoded = [] then read_header lines0 blines
            else if startswith (strip decoded) ''DATA'' \<or> 10 \<le> length (lines0 @ [strip decoded])
                 then Inr (lines0 @ [strip decoded], blines)
                 else read_header (lines0 @ [strip decoded]) blines)"
  using assms by (simp add: Let_def)

lemma read_header_decode_error:
  "decode bline = Inl e \<Longrightarrow> read_header lines0 (bline # blines) = Inl e"
  by simp

lemma read_header_length:
  assumes "read_header lines0 blines = Inr (lines, rest)" and "length lines0 < 10"
  shows "length lines \<le> 10"
  using assms
proof (induction blines arbitrary: lines0)
  case Nil
  then show ?case by simp
next
  case (Cons bline blines)
  show ?case
  proof (cases "decode bline")
    case (Inl e)
    then show ?thesis using Cons.prems read_header_decode_error by simp
  next
    case (Inr decoded)
    note step = read_header_step [OF Inr, of lines0 blines]
    consider (skip) "startswith (strip decoded) ''#'' \<or> strip decoded = []"
      | (stop) "\<not> (startswith (strip decoded) ''#'' \<or> strip decoded = [])"
          "startswith (strip decoded) ''DATA'' \<or> 10 \<le> length (lines0 @ [strip decoded])"
      | (go) "\<not> (startswith (strip decoded) ''#'' \<or> strip decoded = [])"
          "\<not> (startswith (strip decoded) ''DATA'' \<or> 10 \<le> length (lines0 @ [strip decoded]))"
      by blast
    then show ?thesis
    proof cases
      case skip
      then have "read_header lines0 blines = Inr (lines, rest)"
        using Cons.prems(1) step by simp
      then show ?thesis using Cons.IH Cons.prems(2) by blast
    next
      case stop
      then have "lines = lines0 @ [strip decoded]"
        using Cons.prems(1) step by simp
      then show ?thesis using Cons.prems(2) by simp
    next
      case go
      then have "read_header (lines0 @ [strip decoded]) blines = Inr (lines, rest)"
        using Cons.prems(1) step by simp
      moreover have "length (lines0 @ [strip decoded]) < 10" using go(2) by simp
      ultimately show ?thesis using Cons.IH by blast
    qed
  qed
qed

lemma read_header_append:
  assumes "read_header lines0 pre = Inr (lines, rest)"
    and "length lines0 < 10" and "length lines = 10"
  shows "read_header lines0 (pre @ later) = Inr (lines, rest @ later)"
  using assms
proof (induction pre arbitrary: lines0)
  case Nil
  then show ?case by simp
next
  case (Cons bline blines)
  show ?case
  proof (cases "decode bline")
    case (Inl e)
    then show ?thesis using Cons.prems read_header_decode_error by simp
  next
    case (Inr decoded)
    note step = read_header_step [OF Inr, of lines0 blines]
    note step' = read_header_step [OF Inr, of lines0 "blines @ later"]
    consider (skip) "startswith (strip decoded) ''#'' \<or> strip decoded = []"
      | (stop) "\<not> (startswith (strip decoded) ''#'' \<or> strip decoded = [])"
          "startswith (strip decoded) ''DATA'' \<or> 10 \<le> length (lines0 @ [strip decoded])"
      | (go) "\<not> (startswith (strip decoded) ''#'' \<or> strip decoded = [])"
          "\<not> (startswith (strip decoded) ''DATA'' \<or> 10 \<le> length (lines0 @ [strip decoded]))"
      by blast
    then show ?thesis
    proof cases
      case skip
      then have "read_header lines0 blines = Inr (lines, rest)"
        using Cons.prems(1) step by simp
      then have "read_header lines0 (blines @ later) = Inr (lines, rest @ later)"
        using Cons.IH Cons.prems(2,3) by blast
      then show ?thesis using skip step' by simp
    next
      case stop
      then have "lines = lines0 @ [strip decoded] \<and> rest = blines"
        using Cons.prems(1) step by simp
      then show ?thesis using stop step' by simp
    next
      case go
      then have "read_header (lines0 @ [strip decoded]) blines = Inr (lines, rest)"
        using Cons.prems(1) step by simp
      moreover have "length (lines0 @ [strip decoded]) < 10" using go(2) by simp
      ultimately have "read_header (lines0 @ [strip decoded]) (blines @ later) = Inr (lines, rest @ later)"
        using Cons.IH Cons.prems(3) by blast
      then show ?thesis using go step' by simp
    qed
  qed
qed

lemma parse_header_line_cases:
  assumes "parse_header_line rng (k, h) line = Inr (k', h')"
  shows "(line_key line = None \<and> h' = h)
       \<or> (\<exists>key. line_key line = Some key \<and>
            (if key = ''version'' then \<exists>v. h' = h\<lparr>h_version := Some v\<rparr>
             else if key = ''data'' then \<exists>v. h' = h\<lparr>h_data := Some v\<rparr>
             else if key = ''width'' then \<exists>v. h' = h\<lparr>h_width := Some v\<rparr>
             else if key = ''height'' then \<exists>v. h' = h\<lparr>h_height := Some v\<rparr>
             else if key = ''points'' then \<exists>v. h' = h\<lparr>h_points := Some v\<rparr>
             else if key = ''fields'' then \<exists>v. h' = h\<lparr>h_fields := Some v\<rparr>
             else if key = ''type'' then \<exists>v. h' = h\<lparr>h_type := Some v\<rparr>
             else if key = ''size'' then \<exists>v. h' = h\<lparr>h_size := Some v\<rparr>
             else if key = ''count'' then \<exists>v. h' = h\<lparr>h_count := Some v\<rparr>
             else if key = ''viewpoint'' then \<exists>v. h' = h\<lparr>h_viewpoint := Some v\<rparr>
             else h' = h))"
proof (cases "startswith line ''#'' \<or> length line < 2")
  case True
  then show ?thesis using assms by (simp add: parse_header_line_def line_key_def)
next
  case nskip: False
  show ?thesis
  proof (cases "header_match line")
    case None
    then show ?thesis using assms nskip by (simp add: parse_header_line_def line_key_def)
  next
    case (Some g)
    obtain group1 group2 where g: "g = (group1, group2)" by (cases g)
    have key: "line_key line = Some (map lower group1)"
      using nskip Some g by (simp add: line_key_def)
    let ?key = "map lower group1"
    let ?val = "split group2"
    have run: "parse_header_line rng (k, h) line =
            (if ?key = ''version'' then
              bindE (first_token ?val) (\<lambda>v. Inr (k, h\<lparr>h_version := Some v\<rparr>))
            else if ?key = ''data'' then
              bindE (first_token ?val) (\<lambda>v. Inr (k, h\<lparr>h_data := Some v\<rparr>))
            else if ?key = ''width'' then
              bindE (first_token ?val) (\<lambda>v. bindE (py_int v) (\<lambda>n. Inr (k, h\<lparr>h_width := Some n\<rparr>)))
            else if ?key = ''height'' then
              bindE (first_token ?val) (\<lambda>v. bindE (py_int v) (\<lambda>n. Inr (k, h\<lparr>h_height := Some n\<rparr>)))
            else if ?key = ''points'' then
              bindE (first_token ?val) (\<lambda>v. bindE (py_int v) (\<lambda>n. Inr (k, h\<lparr>h_points := Some n\<rparr>)))
            else if ?key = ''fields'' then
              (let (names, k') = name_fields rng k ?val
               in Inr (k', h\<lparr>h_fields := Some names\<rparr>))
            else if ?key = ''type'' then Inr (k, h\<lparr>h_type := Some ?val\<rparr>)
            else if ?key = ''size'' then
              bindE (mapE py_int ?val) (\<lambda>ns. Inr (k, h\<lparr>h_size := Some ns\<rparr>))
            else if ?key = ''count'' then
              bindE (mapE py_int ?val) (\<lambda>ns. Inr (k, h\<lparr>h_count := Some ns\<rparr>))
            else if ?key = ''viewpoint'' then
              bindE (mapE py_float ?val) (\<lambda>fs. Inr (k, h\<lparr>h_viewpoint := Some fs\<rparr>))
            else Inr (k, h))"
      using nskip Some g by (simp add: parse_header_line_def Let_def)
    have "if ?key = ''version'' then \<exists>v. h' = h\<lparr>h_version := Some v\<rparr>
             else if ?key = ''data'' then \<exists>v. h' = h\<lparr>h_data := Some v\<rparr>
             else if ?key = ''width'' then \<exists>v. h' = h\<lparr>h_width := Some v\<rparr>
             else if ?key = ''height'' then \<exists>v. h' = h\<lparr>h_height := Some v\<rparr>
             else if ?key = ''points'' then \<exists>v. h' = h\<lparr>h_points := Some v\<rparr>
             else if ?key = ''fields'' then \<exists>v. h' = h\<lparr>h_fields := Some v\<rparr>
             else if ?key = ''type'' then \<exists>v. h' = h\<lparr>h_type := Some v\<rparr>
             else if ?key = ''size'' then \<exists>v. h' = h\<lparr>h_size := Some v\<rparr>
             else if ?key = ''count'' then \<exists>v. h' = h\<lparr>h_count := Some v\<rparr>
             else if ?key = ''viewpoint'' then \<exists>v. h' = h\<lparr>h_viewpoint := Some v\<rparr>
             else h' = h"
      using assms unfolding run
      by (auto simp add: bindE_def Let_def split: if_splits sum.splits prod.splits)
    then show ?thesis using key by simp
  qed
qed

lemma parse_header_line_keeps:
  assumes "parse_header_line rng (k, h) line = Inr (k', h')"
  shows "(line_key line \<noteq> Some ''data'' \<longrightarrow> h_data h' = h_data h)
       \<and> (line_key line \<noteq> Some ''fields'' \<longrightarrow> h_fields h' = h_fields h)
       \<and> (line_key line \<noteq> Some ''size'' \<longrightarrow> h_size h' = h_size h)
       \<and> (line_key line \<noteq> Some ''type'' \<longrightarrow> h_type h' = h_type h)
       \<and> (line_key line \<noteq> Some ''count'' \<longrightarrow> h_count h' = h_count h)
       \<and> (line_key line \<noteq> Some ''points'' \<longrightarrow> h_points h' = h_points h)
       \<and> (line_key line \<noteq> Some ''width'' \<longrightarrow> h_width h' = h_width h)"
  using parse_header_line_cases [OF assms]
  by (elim disjE exE conjE) (simp, simp split: if_splits, auto)

lemma parse_header_lines_keeps:
  assumes "parse_header_lines rng (k, h) lines = Inr (k', h')"
  shows "((\<forall>l\<in>set lines. line_key l \<noteq> Some ''data'') \<longrightarrow> h_data h' = h_data h)
       \<and> ((\<forall>l\<in>set lines. line_key l \<noteq> Some ''fields'') \<longrightarrow> h_fields h' = h_fields h)
       \<and> ((\<forall>l\<in>set lines. line_key l \<noteq> Some ''size'') \<longrightarrow> h_size h' = h_size h)
       \<and> ((\<forall>l\<in>set lines. line_key l \<noteq> Some ''type'') \<longrightarrow> h_type h' = h_type h)
       \<and> ((\<forall>l\<in>set lines. line_key l \<noteq> Some ''count'') \<longrightarrow> h_count h' = h_count h)
       \<and> ((\<forall>l\<in>set lines. line_key l \<noteq> Some ''points'') \<longrightarrow> h_points h' = h_points h)
       \<and> ((\<forall>l\<in>set lines. line_key l \<noteq> Some ''width'') \<longrightarrow> h_width h' = h_width h)"
  using assms
proof (induction lines arbitrary: k h)
  case Nil
  then show ?case by simp
next
  case (Cons line lines)
  from Cons.prems obtain k1 h1 where
    one: "parse_header_line rng (k, h) line = Inr (k1, h1)"
    and others: "parse_header_lines rng (k1, h1) lines = Inr (k', h')"
    by (cases "parse_header_line rng (k, h) line") auto
  from parse_header_line_keeps [OF one] Cons.IH [OF others]
  show ?case by simp
qed

lemma parse_header_Inr:
  assumes "parse_header rng lines = Inr md"
  shows "\<exists>k h. parse_header_lines rng (0, empty_header) lines = Inr (k, h)
           \<and> MetaData_validate h = Inr md"
  using assms
  by (cases "parse_header_lines rng (0, empty_header) lines") (auto simp add: parse_header_def)

lemma MetaData_validate_default_data:
  assumes "MetaData_validate h = Inr md" and "h_data h = None"
  shows "md_data md = BINARY"
  using assms
  by (auto simp add: MetaData_validate_def Let_def split: option.splits if_splits)

lemma parse_header_default_data:
  assumes "parse_header rng lines = Inr md"
    and "\<forall>l\<in>set lines. line_key l \<noteq> Some ''data''"
  shows "md_data md = BINARY"
proof -
  from parse_header_Inr [OF assms(1)] obtain k h where
    run: "parse_header_lines rng (0, empty_header) lines = Inr (k, h)"
    and v: "MetaData_validate h = Inr md" by blast
  have "h_data h = h_data empty_header"
    using parse_header_lines_keeps [OF run] assms(2) by blast
  then have "h_data h = None" by (simp add: empty_header_def)
  then show ?thesis using MetaData_validate_default_data [OF v] by simp
qed

subsection \<open>C9: the cap of ten header lines\<close>

text \<open>
  C9: header reading never collects more than ten lines. When the first part \<open>pre\<close> of
  a file (ending with a newline) holds ten non-comment, non-empty lines, none of them
  with the key \<open>data\<close>, reading stops after them whatever follows: the collected lines
  are the same for every continuation \<open>later\<close>, the whole of \<open>later\<close> (a \<open>DATA\<close> line in
  it included) is handed to the body decoder unparsed, and a file that decodes has the
  default encoding \<open>binary\<close>.
\<close>

theorem header_reading_stops_at_ten_lines:
  assumes "read_header [] (readlines pre) = Inr (lines, [])"
    and "length lines = 10"
    and "last pre = CHR 0x0A"
    and "\<forall>l\<in>set lines. line_key l \<noteq> Some ''data''"
  shows "read_header [] (readlines (pre @ later)) = Inr (lines, readlines later)
       \<and> from_fileobj rng loadtxt (pre @ later) =
           bindE (parse_header rng lines) (\<lambda>md.
           bindE (parse_pc_data loadtxt later md) (\<lambda>arr. Inr \<lparr>metadata = md, pc_data = arr\<rparr>))
       \<and> (\<forall>pc. from_fileobj rng loadtxt (pre @ later) = Inr pc \<longrightarrow>
             md_data (metadata pc) = BINARY)
       \<and> (\<forall>fp ls rest. read_header [] (readlines fp) = Inr (ls, rest) \<longrightarrow> length ls \<le> 10)"
proof (intro conjI allI impI)
  have ne: "pre \<noteq> []"
  proof
    assume "pre = []"
    then have "lines = []" using assms(1) by (simp add: readlines_def)
    then show False using assms(2) by simp
  qed
  have split: "readlines (pre @ later) = readlines pre @ readlines later"
    using readlines_append [OF assms(3) ne] .
  show rh: "read_header [] (readlines (pre @ later)) = Inr (lines, readlines later)"
    using read_header_append [OF assms(1) _ assms(2), of "readlines later"] split by simp
  show ff: "from_fileobj rng loadtxt (pre @ later) =
           bindE (parse_header rng lines) (\<lambda>md.
           bindE (parse_pc_data loadtxt later md) (\<lambda>arr. Inr \<lparr>metadata = md, pc_data = arr\<rparr>))"
    by (simp add: from_fileobj_def rh concat_readlines)
  {
    fix pc
    assume "from_fileobj rng loadtxt (pre @ later) = Inr pc"
    then have "parse_header rng lines = Inr (metadata pc)"
      unfolding ff by (auto simp add: bindE_def split: sum.splits)
    then show "md_data (metadata pc) = BINARY"
      using parse_header_default_data assms(4) by blast
  }
  {
    fix fp ls rest
    assume "read_header [] (readlines fp) = Inr (ls, rest)"
    then show "length ls \<le> 10" using read_header_length by force
  }
qed

text \<open>
  Witness: ten header lines, then \<open>DATA ascii\<close> and one text row. The container decodes
  as binary, and the four bytes \<open>DATA\<close> of the eleventh line are its one \<open>float32\<close> record.
\<close>

theorem header_reading_stops_at_ten_lines_witness:
  "read_header [] (readlines
     (''VERSION 0.7'' @ [CHR 0x0A] @ ''FIELDS x'' @ [CHR 0x0A] @ ''SIZE 4'' @ [CHR 0x0A]
      @ ''TYPE F'' @ [CHR 0x0A] @ ''COUNT 1'' @ [CHR 0x0A] @ ''WIDTH 1'' @ [CHR 0x0A]
      @ ''HEIGHT 1'' @ [CHR 0x0A] @ ''VIEWPOINT 0 0 0 1 0 0 0'' @ [CHR 0x0A]
      @ ''POINTS 1'' @ [CHR 0x0A] @ ''EXTRA 1'' @ [CHR 0x0A]))
     = Inr ([''VERSION 0.7'', ''FIELDS x'', ''SIZE 4'', ''TYPE F'', ''COUNT 1'', ''WIDTH 1'',
             ''HEIGHT 1'', ''VIEWPOINT 0 0 0 1 0 0 0'', ''POINTS 1'', ''EXTRA 1''], [])
   \<and> from_fileobj (\<lambda>n. n) (\<lambda>ts text. Inl ValueError_loadtxt)
     ((''VERSION 0.7'' @ [CHR 0x0A] @ ''FIELDS x'' @ [CHR 0x0A] @ ''SIZE 4'' @ [CHR 0x0A]
      @ ''TYPE F'' @ [CHR 0x0A] @ ''COUNT 1'' @ [CHR 0x0A] @ ''WIDTH 1'' @ [CHR 0x0A]
      @ ''HEIGHT 1'' @ [CHR 0x0A] @ ''VIEWPOINT 0 0 0 1 0 0 0'' @ [CHR 0x0A]
      @ ''POINTS 1'' @ [CHR 0x0A] @ ''EXTRA 1'' @ [CHR 0x0A])
      @ (''DATA ascii'' @ [CHR 0x0A] @ ''1.5'' @ [CHR 0x0A]))
     = Inr \<lparr>metadata =
              \<lparr>md_fields = [''x''], md_size = [4], md_type = [''F''], md_count = [1],
               md_points = 1, md_width = 1, md_height = 1, md_version = ''0.7'',
               md_viewpoint = [''0'', ''0'', ''0'', ''1'', ''0'', ''0'', ''0''],
               md_data = BINARY\<rparr>,
            pc_data = \<lparr>dtype = [(''x'', float32)], records = [''DATA'']\<rparr>\<rparr>"
proof -
  let ?pre = "''VERSION 0.7'' @ [CHR 0x0A] @ ''FIELDS x'' @ [CHR 0x0A] @ ''SIZE 4'' @ [CHR 0x0A]
      @ ''TYPE F'' @ [CHR 0x0A] @ ''COUNT 1'' @ [CHR 0x0A] @ ''WIDTH 1'' @ [CHR 0x0A]
      @ ''HEIGHT 1'' @ [CHR 0x0A] @ ''VIEWPOINT 0 0 0 1 0 0 0'' @ [CHR 0x0A]
      @ ''POINTS 1'' @ [CHR 0x0A] @ ''EXTRA 1'' @ [CHR 0x0A]"
  let ?lines = "[''VERSION 0.7'', ''FIELDS x'', ''SIZE 4'', ''TYPE F'', ''COUNT 1'', ''WIDTH 1'',
             ''HEIGHT 1'', ''VIEWPOINT 0 0 0 1 0 0 0'', ''POINTS 1'', ''EXTRA 1'']"
  let ?later = "''DATA ascii'' @ [CHR 0x0A] @ ''1.5'' @ [CHR 0x0A]"
  let ?lt = "\<lambda>(ts :: np_type list) (text :: string). (Inl ValueError_loadtxt :: pcd_error + string list)"
  let ?md = "\<lparr>md_fields = [''x''], md_size = [4], md_type = [''F''], md_count = [1],
               md_points = 1, md_width = 1, md_height = 1, md_version = ''0.7'',
               md_viewpoint = [''0'', ''0'', ''0'', ''1'', ''0'', ''0'', ''0''],
               md_data = BINARY\<rparr>"
  have r: "read_header [] (readlines ?pre) = Inr (?lines, [])"
    by code_simp
  have n: "length ?lines = 10" by simp
  have e: "last ?pre = CHR 0x0A" by simp
  have "list_all (\<lambda>l. line_key l \<noteq> Some ''data'') ?lines"
    by code_simp
  then have k: "\<forall>l\<in>set ?lines. line_key l \<noteq> Some ''data''"
    by (simp only: list_all_iff)
  have p: "parse_header (\<lambda>n. n) ?lines = Inr ?md"
    by code_simp
  have d: "parse_pc_data ?lt ?later ?md = Inr \<lparr>dtype = [(''x'', float32)], records = [''DATA'']\<rparr>"
    by code_simp
  from header_reading_stops_at_ten_lines [OF r n e k, of ?later "\<lambda>n. n" ?lt]
  have "from_fileobj (\<lambda>n. n) ?lt (?pre @ ?later) =
           bindE (parse_header (\<lambda>n. n) ?lines) (\<lambda>md.
           bindE (parse_pc_data ?lt ?later md) (\<lambda>arr. Inr \<lparr>metadata = md, pc_data = arr\<rparr>))"
    by blast
  then have "from_fileobj (\<lambda>n. n) ?lt (?pre @ ?later)
     = Inr \<lparr>metadata = ?md, pc_data = \<lparr>dtype = [(''x'', float32)], records = [''DATA'']\<rparr>\<rparr>"
    by (simp only: p d bindE_Inr)
  then show ?thesis using r by blast
qed

subsection \<open>C5: what header parsing rejects\<close>







subsection \<open>Two runs on the same container\<close>

text \<open>
  Two runs differ in the random source only. The names they give to the fields are
  related position by position: equal, or both starting with \<open>#\<close> (an anonymous
  field). The lemmas carry this relation through header parsing, the layout and the
  matrix of all columns.
\<close>

lemma name_fields_related:
  "list_all2 (\<lambda>a b. a = b \<or> (startswith a ''#'' \<and> startswith b ''#''))
     (fst (name_fields rng1 k toks)) (fst (name_fields rng2 k toks))
   \<and> snd (name_fields rng1 k toks) = snd (name_fields rng2 k toks)"
proof (induction toks arbitrary: k)
  case Nil
  then show ?case by simp
next
  case (Cons s ss)
  show ?case
  proof (cases "s = ''_''")
    case True
    then show ?thesis
      using Cons.IH [of "Suc k"] by (simp add: split_beta startswith_def Let_def)
  next
    case False
    then show ?thesis
      using Cons.IH [of k] by (simp add: split_beta Let_def)
  qed
qed

lemma parse_header_line_skipped:
  "startswith line ''#'' \<or> length line < 2 \<or> header_match line = None
     \<Longrightarrow> parse_header_line rng (k, h) line = Inr (k, h)"
  by (auto simp add: parse_header_line_def)

lemma parse_header_line_matched:
  assumes "\<not> (startswith line ''#'' \<or> length line < 2)"
    and "header_match line = Some (group1, group2)"
  shows "parse_header_line rng (k, h) line =
            (if map lower group1 = ''version'' then
              bindE (first_token (split group2)) (\<lambda>v. Inr (k, h\<lparr>h_version := Some v\<rparr>))
            else if map lower group1 = ''data'' then
              bindE (first_token (split group2)) (\<lambda>v. Inr (k, h\<lparr>h_data := Some v\<rparr>))
            else if map lower group1 = ''width'' then
              bindE (first_token (split group2))
                (\<lambda>v. bindE (py_int v) (\<lambda>n. Inr (k, h\<lparr>h_width := Some n\<rparr>)))
            else if map lower group1 = ''height'' then
              bindE (first_token (split group2))
                (\<lambda>v. bindE (py_int v) (\<lambda>n. Inr (k, h\<lparr>h_height := Some n\<rparr>)))
            else if map lower group1 = ''points'' then
              bindE (first_token (split group2))
                (\<lambda>v. bindE (py_int v) (\<lambda>n. Inr (k, h\<lparr>h_points := Some n\<rparr>)))
            else if map lower group1 = ''fields'' then
              Inr (snd (name_fields rng k (split group2)),
                   h\<lparr>h_fields := Some (fst (name_fields rng k (split group2)))\<rparr>)
            else if map lower group1 = ''type'' then Inr (k, h\<lparr>h_type := Some (split group2)\<rparr>)
            else if map lower group1 = ''size'' then
              bindE (mapE py_int (split group2)) (\<lambda>ns. Inr (k, h\<lparr>h_size := Some ns\<rparr>))
            else if map lower group1 = ''count'' then
              bindE (mapE py_int (split group2)) (\<lambda>ns. Inr (k, h\<lparr>h_count := Some ns\<rparr>))
            else if map lower group1 = ''viewpoint'' then
              bindE (mapE py_float (split group2)) (\<lambda>fs. Inr (k, h\<lparr>h_viewpoint := Some fs\<rparr>))
            else Inr (k, h))"
  using assms by (simp add: parse_header_line_def Let_def split_beta)

lemma parse_header_line_related:
  assumes "rel_option (list_all2 (\<lambda>a b. a = b \<or> (startswith a ''#'' \<and> startswith b ''#'')))
           (h_fields h1) f2"
  shows "rel_sum (=)
           (\<lambda>st1 st2. fst st1 = fst st2 \<and> snd st2 = (snd st1)\<lparr>h_fields := h_fields (snd st2)\<rparr>
              \<and> rel_option (list_all2 (\<lambda>a b. a = b \<or> (startswith a ''#'' \<and> startswith b ''#'')))
                   (h_fields (snd st1)) (h_fields (snd st2)))
           (parse_header_line rng1 (k, h1) line)
           (parse_header_line rng2 (k, h1\<lparr>h_fields := f2\<rparr>) line)"
proof (cases "startswith line ''#'' \<or> length line < 2 \<or> header_match line = None")
  case True
  then show ?thesis using assms by (simp add: parse_header_line_skipped)
next
  case False
  then obtain group1 group2 where m: "header_match line = Some (group1, group2)"
    by (cases "header_match line") auto
  from False have ns: "\<not> (startswith line ''#'' \<or> length line < 2)" by simp
  define key where "key = map lower group1"
  note u1 = parse_header_line_matched [OF ns m, of rng1 k h1, folded key_def]
  note u2 = parse_header_line_matched [OF ns m, of rng2 k "h1\<lparr>h_fields := f2\<rparr>", folded key_def]
  note nf = name_fields_related [of rng1 k "split group2" rng2]
  show ?thesis
    unfolding u1 u2
    using assms nf
    by (auto simp add: bindE_def split: sum.splits)
qed

lemma parse_header_lines_related:
  assumes "rel_option (list_all2 (\<lambda>a b. a = b \<or> (startswith a ''#'' \<and> startswith b ''#'')))
           (h_fields h1) f2"
  shows "rel_sum (=)
           (\<lambda>st1 st2. fst st1 = fst st2 \<and> snd st2 = (snd st1)\<lparr>h_fields := h_fields (snd st2)\<rparr>
              \<and> rel_option (list_all2 (\<lambda>a b. a = b \<or> (startswith a ''#'' \<and> startswith b ''#'')))
                   (h_fields (snd st1)) (h_fields (snd st2)))
           (parse_header_lines rng1 (k, h1) lines)
           (parse_header_lines rng2 (k, h1\<lparr>h_fields := f2\<rparr>) lines)"
  using assms
proof (induction lines arbitrary: k h1 f2)
  case Nil
  then show ?case by simp
next
  case (Cons line lines)
  note step = parse_header_line_related [OF Cons.prems, of rng1 k line rng2]
  show ?case
  proof (cases "parse_header_line rng1 (k, h1) line")
    case (Inl e)
    then have "parse_header_line rng2 (k, h1\<lparr>h_fields := f2\<rparr>) line = Inl e"
      using step by (cases "parse_header_line rng2 (k, h1\<lparr>h_fields := f2\<rparr>) line") auto
    then show ?thesis using Inl by simp
  next
    case (Inr st1)
    then obtain st2 where
      r2: "parse_header_line rng2 (k, h1\<lparr>h_fields := f2\<rparr>) line = Inr st2"
      and k: "fst st1 = fst st2"
      and h: "snd st2 = (snd st1)\<lparr>h_fields := h_fields (snd st2)\<rparr>"
      and f: "rel_option (list_all2 (\<lambda>a b. a = b \<or> (startswith a ''#'' \<and> startswith b ''#'')))
                   (h_fields (snd st1)) (h_fields (snd st2))"
      using step by (cases "parse_header_line rng2 (k, h1\<lparr>h_fields := f2\<rparr>) line") auto
    have st1: "st1 = (fst st1, snd st1)" by simp
    have st2: "st2 = (fst st1, (snd st1)\<lparr>h_fields := h_fields (snd st2)\<rparr>)"
      using k h by (metis prod.collapse)
    from Cons.IH [OF f, of "fst st1"]
    have "rel_sum (=)
           (\<lambda>st1 st2. fst st1 = fst st2 \<and> snd st2 = (snd st1)\<lparr>h_fields := h_fields (snd st2)\<rparr>
              \<and> rel_option (list_all2 (\<lambda>a b. a = b \<or> (startswith a ''#'' \<and> startswith b ''#'')))
                   (h_fields (snd st1)) (h_fields (snd st2)))
           (parse_header_lines rng1 st1 lines) (parse_header_lines rng2 st2 lines)"
      using st2 by simp
    then show ?thesis using Inr r2 by simp
  qed
qed

lemma MetaData_validate_related:
  assumes "rel_option (list_all2 (\<lambda>a b. a = b \<or> (startswith a ''#'' \<and> startswith b ''#'')))
           (h_fields h) f2"
  shows "rel_sum (=)
           (\<lambda>m1 m2. m2 = m1\<lparr>md_fields := md_fields m2\<rparr>
              \<and> list_all2 (\<lambda>a b. a = b \<or> (startswith a ''#'' \<and> startswith b ''#''))
                   (md_fields m1) (md_fields m2))
           (MetaData_validate h) (MetaData_validate (h\<lparr>h_fields := f2\<rparr>))"
proof (cases "h_fields h")
  case None
  then have "f2 = None" using assms by simp
  then show ?thesis using None by (simp add: MetaData_validate_def)
next
  case (Some f1)
  then obtain f2' where f2: "f2 = Some f2'"
    and r: "list_all2 (\<lambda>a b. a = b \<or> (startswith a ''#'' \<and> startswith b ''#'')) f1 f2'"
    using assms by (cases f2) auto
  show ?thesis
    using Some r unfolding f2
    by (auto simp add: MetaData_validate_def Let_def split: option.splits)
qed

lemma parse_header_related:
  "rel_sum (=)
     (\<lambda>m1 m2. m2 = m1\<lparr>md_fields := md_fields m2\<rparr>
        \<and> list_all2 (\<lambda>a b. a = b \<or> (startswith a ''#'' \<and> startswith b ''#''))
             (md_fields m1) (md_fields m2))
     (parse_header rng1 lines) (parse_header rng2 lines)"
proof -
  have e: "empty_header\<lparr>h_fields := None\<rparr> = empty_header" by (simp add: empty_header_def)
  have n: "rel_option (list_all2 (\<lambda>a b. a = b \<or> (startswith a ''#'' \<and> startswith b ''#'')))
           (h_fields empty_header) None"
    by (simp add: empty_header_def)
  note rel = parse_header_lines_related [OF n, of rng1 0 lines rng2, unfolded e]
  show ?thesis
  proof (cases "parse_header_lines rng1 (0, empty_header) lines")
    case (Inl e1)
    then have "parse_header_lines rng2 (0, empty_header) lines = Inl e1"
      using rel by (cases "parse_header_lines rng2 (0, empty_header) lines") auto
    then show ?thesis using Inl by (simp add: parse_header_def)
  next
    case (Inr st1)
    then obtain st2 where
      r2: "parse_header_lines rng2 (0, empty_header) lines = Inr st2"
      and h: "snd st2 = (snd st1)\<lparr>h_fields := h_fields (snd st2)\<rparr>"
      and f: "rel_option (list_all2 (\<lambda>a b. a = b \<or> (startswith a ''#'' \<and> startswith b ''#'')))
                   (h_fields (snd st1)) (h_fields (snd st2))"
      using rel by (cases "parse_header_lines rng2 (0, empty_header) lines") auto
    from MetaData_validate_related [OF f]
    have "rel_sum (=)
           (\<lambda>m1 m2. m2 = m1\<lparr>md_fields := md_fields m2\<rparr>
              \<and> list_all2 (\<lambda>a b. a = b \<or> (startswith a ''#'' \<and> startswith b ''#''))
                   (md_fields m1) (md_fields m2))
           (MetaData_validate (snd st1)) (MetaData_validate (snd st2))"
      using h by simp
    then show ?thesis using Inr r2 by (simp add: parse_header_def split_beta)
  qed
qed

lemma dtype_columns_types:
  assumes "dtype_columns md i = Inr cols"
  shows "map snd cols =
           replicate (if md_count md ! i = 1 then 1 else nat (md_count md ! i))
             (the (map_of PCD_TYPE_TO_NUMPY_TYPE (md_type md ! i, md_size md ! i)))"
proof -
  from dtype_columns_Inr [OF assms] obtain ty where
    ty: "map_of PCD_TYPE_TO_NUMPY_TYPE (md_type md ! i, md_size md ! i) = Some ty"
    and cols: "cols = (if md_count md ! i = 1 then [(md_fields md ! i, ty)]
                 else map (\<lambda>c. (md_fields md ! i @ ''__'' @ format_04d c, ty))
                        [0 ..< nat (md_count md ! i)])"
    by blast
  show ?thesis
    unfolding cols ty by (simp add: comp_def map_replicate_const)
qed

lemma build_dtype_types:
  assumes "build_dtype md = Inr dt"
  shows "map snd dt =
           concat (map (\<lambda>i. replicate (if md_count md ! i = 1 then 1 else nat (md_count md ! i))
                         (the (map_of PCD_TYPE_TO_NUMPY_TYPE (md_type md ! i, md_size md ! i))))
                     [0 ..< length (md_fields md)])"
proof -
  let ?n = "length (md_fields md)"
  let ?g = "\<lambda>i. replicate (if md_count md ! i = 1 then 1 else nat (md_count md ! i))
                         (the (map_of PCD_TYPE_TO_NUMPY_TYPE (md_type md ! i, md_size md ! i)))"
  from build_dtype_Inr [OF assms] obtain cols where
    cols: "mapE (dtype_columns md) [0 ..< ?n] = Inr cols" and dt: "dt = concat cols"
    by blast
  from cols have l2: "list_all2 (\<lambda>i c. dtype_columns md i = Inr c) [0 ..< ?n] cols"
    by (simp add: mapE_Inr_iff)
  then have len: "length cols = ?n" by (auto dest: list_all2_lengthD)
  have each: "\<And>i. i < ?n \<Longrightarrow> dtype_columns md i = Inr (cols ! i)"
    using l2 by (auto simp add: list_all2_conv_all_nth)
  have "map (map snd) cols = map ?g [0 ..< ?n]"
  proof (rule nth_equalityI)
    show "length (map (map snd) cols) = length (map ?g [0 ..< ?n])" using len by simp
  next
    fix i assume "i < length (map (map snd) cols)"
    then have i: "i < ?n" using len by simp
    show "map (map snd) cols ! i = map ?g [0 ..< ?n] ! i"
      using i len dtype_columns_types [OF each [OF i]] by simp
  qed
  then show ?thesis using dt by (simp add: map_concat)
qed

lemma build_dtype_types_related:
  assumes "build_dtype m1 = Inr dt1" and "build_dtype (m1\<lparr>md_fields := f2\<rparr>) = Inr dt2"
    and "length f2 = length (md_fields m1)"
  shows "map snd dt1 = map snd dt2"
  using build_dtype_types [OF assms(1)] build_dtype_types [OF assms(2)] assms(3)
  by (simp cong: if_cong)

lemma startswith_append:
  "startswith a ''#'' \<Longrightarrow> startswith (a @ x) ''#''"
  by (cases a) (simp_all add: startswith_def)

lemma expand_field_related:
  assumes "a = b \<or> (startswith a ''#'' \<and> startswith b ''#'')"
  shows "list_all2 (\<lambda>a b. a = b \<or> (startswith a ''#'' \<and> startswith b ''#''))
           (expand_field (a, n)) (expand_field (b, n))"
proof (cases "a = b")
  case True
  then show ?thesis by (simp add: list_all2_same)
next
  case False
  then have s: "startswith a ''#''" "startswith b ''#''" using assms by auto
  have a: "\<And>x. startswith (a @ x) ''#''" using s(1) by (rule startswith_append)
  have b: "\<And>x. startswith (b @ x) ''#''" using s(2) by (rule startswith_append)
  show ?thesis
    using s a b by (simp add: expand_field_def list_all2_map1 list_all2_map2 list_all2_same)
qed

lemma expanded_related:
  assumes "list_all2 (\<lambda>a b. a = b \<or> (startswith a ''#'' \<and> startswith b ''#'')) f1 f2"
  shows "list_all2 (\<lambda>a b. a = b \<or> (startswith a ''#'' \<and> startswith b ''#''))
           (concat (map expand_field (zip f1 cs))) (concat (map expand_field (zip f2 cs)))"
  using assms
proof (induction f1 f2 arbitrary: cs rule: list_all2_induct)
  case Nil
  then show ?case by simp
next
  case (Cons a f1 b f2)
  show ?case
  proof (cases cs)
    case Nil
    then show ?thesis by simp
  next
    case (Cons c cs')
    then show ?thesis
      using expand_field_related [OF Cons.hyps(1), of c] Cons.IH [of cs']
      by (simp add: list_all2_appendI)
  qed
qed

lemma index_of_related:
  assumes "list_all2 (\<lambda>a b. a = b \<or> (startswith a ''#'' \<and> startswith b ''#'')) xs ys"
    and "\<not> startswith x ''#''"
  shows "index_of x xs = index_of x ys"
  using assms by (induction xs ys rule: list_all2_induct) auto

lemma selected_indices_related:
  assumes "list_all2 (\<lambda>a b. a = b \<or> (startswith a ''#'' \<and> startswith b ''#'')) xs ys"
  shows "selected_indices xs = selected_indices ys"
proof -
  have "\<forall>f\<in>set selected_fields. \<not> startswith f ''#''"
    by (simp add: selected_fields_def startswith_def)
  then have "\<forall>f\<in>set selected_fields. index_of f xs = index_of f ys"
    using index_of_related [OF assms] by blast
  then show ?thesis
    unfolding selected_indices_def List.map_filter_def
    by (metis (mono_tags, lifting) comp_apply filter_cong map_eq_conv mem_Collect_eq set_filter)
qed

lemma dtype_itemsize_types: "dtype_itemsize dt = sum_list (map itemsize (map snd dt))"
  by (simp add: dtype_itemsize_def comp_def case_prod_unfold)

lemma parse_pc_data_records:
  assumes "parse_pc_data loadtxt fp md = Inr arr"
  shows "records arr =
           (if 0 < md_points md then
              (case md_data md of
                 ASCII \<Rightarrow> projr (loadtxt (map snd (dtype arr)) fp)
               | BINARY \<Rightarrow>
                   map (\<lambda>i. take (dtype_itemsize (dtype arr))
                              (drop (i * dtype_itemsize (dtype arr))
                                 (take (nat (md_points md * int (dtype_itemsize (dtype arr)))) fp)))
                     [0 ..< length (take (nat (md_points md * int (dtype_itemsize (dtype arr)))) fp)
                              div dtype_itemsize (dtype arr)])
            else [])"
proof -
  obtain d r where arr: "arr = \<lparr>dtype = d, records = r\<rparr>" by (cases arr) auto
  have b: "build_dtype md = Inr d"
    using parse_pc_data_dtype [OF assms] arr by simp
  show ?thesis
    using assms b unfolding arr
    by (auto simp add: parse_pc_data_def np_frombuffer_def Let_def bindE_def
        split: if_splits Encoding.splits sum.splits)
qed

lemma parse_pc_data_records_related:
  assumes "parse_pc_data loadtxt fp m1 = Inr arr1"
    and "parse_pc_data loadtxt fp (m1\<lparr>md_fields := f2\<rparr>) = Inr arr2"
    and "length f2 = length (md_fields m1)"
  shows "records arr1 = records arr2 \<and> map snd (dtype arr1) = map snd (dtype arr2)"
proof -
  let ?m2 = "m1\<lparr>md_fields := f2\<rparr>"
  have b1: "build_dtype m1 = Inr (dtype arr1)" using parse_pc_data_dtype [OF assms(1)] .
  have b2: "build_dtype ?m2 = Inr (dtype arr2)" using parse_pc_data_dtype [OF assms(2)] .
  have ts: "map snd (dtype arr1) = map snd (dtype arr2)"
    using build_dtype_types_related [OF b1 b2 assms(3)] .
  then have sz: "dtype_itemsize (dtype arr1) = dtype_itemsize (dtype arr2)"
    by (simp add: dtype_itemsize_types)
  have "records arr1 = records arr2"
    unfolding parse_pc_data_records [OF assms(1)] parse_pc_data_records [OF assms(2)]
    using ts sz by (simp cong: if_cong Encoding.case_cong)
  then show ?thesis using ts by simp
qed

lemma index_of_nth_distinct:
  "distinct xs \<Longrightarrow> j < length xs \<Longrightarrow> index_of (xs ! j) xs = Some j"
proof (induction xs arbitrary: j)
  case Nil
  then show ?case by simp
next
  case (Cons x xs)
  show ?case
  proof (cases j)
    case 0
    then show ?thesis by simp
  next
    case (Suc j')
    then have "xs ! j' \<noteq> x" using Cons.prems by auto
    then show ?thesis using Suc Cons by auto
  qed
qed

lemma getitem_nth:
  assumes "distinct (map fst (dtype a))" and "j < length (dtype a)"
  shows "getitem a (fst (dtype a ! j)) =
           Inr (map (\<lambda>r. (map snd (dtype a) ! j,
                          take (itemsize (map snd (dtype a) ! j))
                            (drop (sum_list (map itemsize (take j (map snd (dtype a))))) r)))
                  (records a))"
proof -
  have "index_of (map fst (dtype a) ! j) (map fst (dtype a)) = Some j"
    using index_of_nth_distinct [OF assms(1)] assms(2) by simp
  then have "index_of (fst (dtype a ! j)) (map fst (dtype a)) = Some j"
    using assms(2) by simp
  then show ?thesis
    using assms(2)
    by (simp add: getitem_def Let_def field_offset_def dtype_itemsize_types take_map)
qed

lemma mapE_getitem_own:
  assumes "distinct (map fst (dtype a))"
  shows "mapE (getitem a) (map fst (dtype a)) =
           Inr (map (\<lambda>j. map (\<lambda>r. (map snd (dtype a) ! j,
                          take (itemsize (map snd (dtype a) ! j))
                            (drop (sum_list (map itemsize (take j (map snd (dtype a))))) r)))
                  (records a)) [0 ..< length (dtype a)])"
proof (rule mapE_list_all2)
  show "list_all2 (\<lambda>x y. getitem a x = Inr y) (map fst (dtype a))
          (map (\<lambda>j. map (\<lambda>r. (map snd (dtype a) ! j,
                          take (itemsize (map snd (dtype a) ! j))
                            (drop (sum_list (map itemsize (take j (map snd (dtype a))))) r)))
                  (records a)) [0 ..< length (dtype a)])"
    using getitem_nth [OF assms] by (simp add: list_all2_conv_all_nth)
qed

lemma numpy_related:
  assumes d1: "parse_pc_data loadtxt fp m1 = Inr arr1"
    and d2: "parse_pc_data loadtxt fp (m1\<lparr>md_fields := f2\<rparr>) = Inr arr2"
    and len: "length f2 = length (md_fields m1)"
  shows "numpy \<lparr>metadata = m1, pc_data = arr1\<rparr>
             (Some (PointCloud_fields \<lparr>metadata = m1, pc_data = arr1\<rparr>))
       = numpy \<lparr>metadata = m1\<lparr>md_fields := f2\<rparr>, pc_data = arr2\<rparr>
             (Some (PointCloud_fields \<lparr>metadata = m1\<lparr>md_fields := f2\<rparr>, pc_data = arr2\<rparr>))"
proof -
  let ?pc1 = "\<lparr>metadata = m1, pc_data = arr1\<rparr>"
  let ?pc2 = "\<lparr>metadata = m1\<lparr>md_fields := f2\<rparr>, pc_data = arr2\<rparr>"
  have f1: "PointCloud_fields ?pc1 = map fst (dtype arr1)"
    using decoded_fields [OF d1] by simp
  have f2: "PointCloud_fields ?pc2 = map fst (dtype arr2)"
    using decoded_fields [OF d2] by simp
  have dist1: "distinct (map fst (dtype arr1))"
    using build_dtype_Inr [OF parse_pc_data_dtype [OF d1]] by blast
  have dist2: "distinct (map fst (dtype arr2))"
    using build_dtype_Inr [OF parse_pc_data_dtype [OF d2]] by blast
  note rel = parse_pc_data_records_related [OF d1 d2 len]
  then have n: "length (dtype arr1) = length (dtype arr2)"
    by (metis length_map)
  have stack: "mapE (getitem arr1) (map fst (dtype arr1)) = mapE (getitem arr2) (map fst (dtype arr2))"
    unfolding mapE_getitem_own [OF dist1] mapE_getitem_own [OF dist2]
    using rel n by simp
  have e: "(dtype arr1 = []) = (dtype arr2 = [])" using n by auto
  show ?thesis
    unfolding f1 f2 using stack rel n e by (simp add: numpy_def Let_def)
qed

subsection \<open>C8: the CSV output of two runs\<close>

text \<open>
  C8: two conversions of the same input bytes should write the same CSV file. The code
  breaks this where two anonymous fields of one header draw the same random suffix.
  Lines 97-104 rename every \<open>_\<close> so that the field names are distinct; the six random
  characters can repeat. For the header \<open>FIELDS x _ _\<close> a run whose two draws differ
  (\<open>abcdef\<close>, \<open>ghijkl\<close>) writes the CSV; a run whose two draws coincide
  (\<open>aaaaaa\<close> twice) gives both anonymous fields the same name, \<open>np.dtype\<close> raises
  \<open>ValueError\<close> in \<open>build_dtype\<close>, and no file is written.
\<close>

theorem csv_run_fails_on_suffix_collision:
  "pcd_to_csv (\<lambda>n. n) (\<lambda>ts text. Inl ValueError_loadtxt)
     (''FIELDS x _ _'' @ [CHR 0x0A] @ ''SIZE 4 1 1'' @ [CHR 0x0A] @ ''TYPE F U U'' @ [CHR 0x0A]
      @ ''COUNT 1 1 1'' @ [CHR 0x0A] @ ''WIDTH 1'' @ [CHR 0x0A] @ ''POINTS 1'' @ [CHR 0x0A]
      @ ''DATA binary'' @ [CHR 0x0A] @ ''aaaabc'')
     = Inr \<lparr>header_row = [''x'', ''y'', ''z'', ''intensity''],
            data_rows = [[(float32, ''aaaa'')]]\<rparr>
   \<and> pcd_to_csv (\<lambda>n. 0) (\<lambda>ts text. Inl ValueError_loadtxt)
     (''FIELDS x _ _'' @ [CHR 0x0A] @ ''SIZE 4 1 1'' @ [CHR 0x0A] @ ''TYPE F U U'' @ [CHR 0x0A]
      @ ''COUNT 1 1 1'' @ [CHR 0x0A] @ ''WIDTH 1'' @ [CHR 0x0A] @ ''POINTS 1'' @ [CHR 0x0A]
      @ ''DATA binary'' @ [CHR 0x0A] @ ''aaaabc'')
     = Inl ValueError_duplicate_field"
  by code_simp

text \<open>
  Apart from that failure the random names do not reach the file: whenever two runs of
  the conversion on the same input bytes both complete, they write the same CSV file,
  whatever random suffixes each run draws.
\<close>

theorem csv_same_when_both_runs_complete:
  assumes "pcd_to_csv rng1 loadtxt pcd = Inr csv1"
    and "pcd_to_csv rng2 loadtxt pcd = Inr csv2"
  shows "csv1 = csv2"
proof -
  from assms(1) obtain pc1 where p1: "from_fileobj rng1 loadtxt pcd = Inr pc1"
    by (cases "from_fileobj rng1 loadtxt pcd") (auto simp add: pcd_to_csv_def)
  from assms(2) obtain pc2 where p2: "from_fileobj rng2 loadtxt pcd = Inr pc2"
    by (cases "from_fileobj rng2 loadtxt pcd") (auto simp add: pcd_to_csv_def)
  from from_fileobj_Inr [OF p1] obtain lines rest where
    rh: "read_header [] (readlines pcd) = Inr (lines, rest)"
    and h1: "parse_header rng1 lines = Inr (metadata pc1)"
    and d1: "parse_pc_data loadtxt (concat rest) (metadata pc1) = Inr (pc_data pc1)"
    by blast
  from from_fileobj_Inr [OF p2] rh have
    h2: "parse_header rng2 lines = Inr (metadata pc2)"
    and d2: "parse_pc_data loadtxt (concat rest) (metadata pc2) = Inr (pc_data pc2)"
    by auto
  let ?m1 = "metadata pc1"
  let ?f2 = "md_fields (metadata pc2)"
  from parse_header_related [of rng1 lines rng2] h1 h2 have
    m2: "metadata pc2 = ?m1\<lparr>md_fields := ?f2\<rparr>"
    and rel: "list_all2 (\<lambda>a b. a = b \<or> (startswith a ''#'' \<and> startswith b ''#''))
                (md_fields ?m1) ?f2"
    by auto
  have len: "length ?f2 = length (md_fields ?m1)"
    using rel by (auto dest: list_all2_lengthD)
  have d2': "parse_pc_data loadtxt (concat rest) (?m1\<lparr>md_fields := ?f2\<rparr>) = Inr (pc_data pc2)"
    using d2 m2 by simp
  have pc1: "pc1 = \<lparr>metadata = ?m1, pc_data = pc_data pc1\<rparr>" by simp
  have pc2: "pc2 = \<lparr>metadata = ?m1\<lparr>md_fields := ?f2\<rparr>, pc_data = pc_data pc2\<rparr>"
    using m2 by simp
  have np: "numpy pc1 (Some (PointCloud_fields pc1)) = numpy pc2 (Some (PointCloud_fields pc2))"
    using numpy_related [OF d1 d2' len] pc1 pc2 by simp
  have cnt: "md_count (metadata pc2) = md_count ?m1"
    using m2 by (metis MetaData.select_convs(4) MetaData.surjective MetaData.update_convs(1))
  have "list_all2 (\<lambda>a b. a = b \<or> (startswith a ''#'' \<and> startswith b ''#''))
          (PointCloud_fields pc1) (PointCloud_fields pc2)"
    using expanded_related [OF rel, of "md_count ?m1"] cnt
    by (simp add: PointCloud_fields_def)
  then have si: "selected_indices (PointCloud_fields pc1) = selected_indices (PointCloud_fields pc2)"
    by (rule selected_indices_related)
  have "pcd_to_csv rng1 loadtxt pcd = pcd_to_csv rng2 loadtxt pcd"
    using p1 p2 np si by (simp add: pcd_to_csv_def Let_def)
  then show ?thesis using assms by simp
qed

text \<open>
  Witness: the same container under two random sources with distinct draws. The decoded
  clouds differ (in the names of the anonymous fields); the CSV files are the same.
\<close>

theorem csv_same_when_both_runs_complete_witness:
  "pcd_to_csv (\<lambda>n. n) (\<lambda>ts text. Inl ValueError_loadtxt)
     (''FIELDS x _ _'' @ [CHR 0x0A] @ ''SIZE 4 1 1'' @ [CHR 0x0A] @ ''TYPE F U U'' @ [CHR 0x0A]
      @ ''COUNT 1 1 1'' @ [CHR 0x0A] @ ''WIDTH 1'' @ [CHR 0x0A] @ ''POINTS 1'' @ [CHR 0x0A]
      @ ''DATA binary'' @ [CHR 0x0A] @ ''aaaabc'')
     = Inr \<lparr>header_row = [''x'', ''y'', ''z'', ''intensity''],
            data_rows = [[(float32, ''aaaa'')]]\<rparr>
   \<and> pcd_to_csv (\<lambda>n. n + 7) (\<lambda>ts text. Inl ValueError_loadtxt)
     (''FIELDS x _ _'' @ [CHR 0x0A] @ ''SIZE 4 1 1'' @ [CHR 0x0A] @ ''TYPE F U U'' @ [CHR 0x0A]
      @ ''COUNT 1 1 1'' @ [CHR 0x0A] @ ''WIDTH 1'' @ [CHR 0x0A] @ ''POINTS 1'' @ [CHR 0x0A]
      @ ''DATA binary'' @ [CHR 0x0A] @ ''aaaabc'')
     = Inr \<lparr>header_row = [''x'', ''y'', ''z'', ''intensity''],
            data_rows = [[(float32, ''aaaa'')]]\<rparr>
   \<and> from_fileobj (\<lambda>n. n) (\<lambda>ts text. Inl ValueError_loadtxt)
     (''FIELDS x _ _'' @ [CHR 0x0A] @ ''SIZE 4 1 1'' @ [CHR 0x0A] @ ''TYPE F U U'' @ [CHR 0x0A]
      @ ''COUNT 1 1 1'' @ [CHR 0x0A] @ ''WIDTH 1'' @ [CHR 0x0A] @ ''POINTS 1'' @ [CHR 0x0A]
      @ ''DATA binary'' @ [CHR 0x0A] @ ''aaaabc'')
     \<noteq> from_fileobj (\<lambda>n. n + 7) (\<lambda>ts text. Inl ValueError_loadtxt)
     (''FIELDS x _ _'' @ [CHR 0x0A] @ ''SIZE 4 1 1'' @ [CHR 0x0A] @ ''TYPE F U U'' @ [CHR 0x0A]
      @ ''COUNT 1 1 1'' @ [CHR 0x0A] @ ''WIDTH 1'' @ [CHR 0x0A] @ ''POINTS 1'' @ [CHR 0x0A]
      @ ''DATA binary'' @ [CHR 0x0A] @ ''aaaabc'')"
proof -
  let ?lt = "\<lambda>(ts :: np_type list) (text :: string). (Inl ValueError_loadtxt :: pcd_error + string list)"
  let ?file = "''FIELDS x _ _'' @ [CHR 0x0A] @ ''SIZE 4 1 1'' @ [CHR 0x0A] @ ''TYPE F U U'' @ [CHR 0x0A]
      @ ''COUNT 1 1 1'' @ [CHR 0x0A] @ ''WIDTH 1'' @ [CHR 0x0A] @ ''POINTS 1'' @ [CHR 0x0A]
      @ ''DATA binary'' @ [CHR 0x0A] @ ''aaaabc''"
  have r1: "pcd_to_csv (\<lambda>n. n) ?lt ?file
     = Inr \<lparr>header_row = [''x'', ''y'', ''z'', ''intensity''],
            data_rows = [[(float32, ''aaaa'')]]\<rparr>"
    by code_simp
  have "isl (pcd_to_csv (\<lambda>n. n + 7) ?lt ?file) = False"
    by code_simp
  then obtain csv2 where r2: "pcd_to_csv (\<lambda>n. n + 7) ?lt ?file = Inr csv2"
    by (cases "pcd_to_csv (\<lambda>n. n + 7) ?lt ?file") auto
  from csv_same_when_both_runs_complete [OF r1 r2] have e: "csv2 = \<lparr>header_row = [''x'', ''y'', ''z'', ''intensity''],
            data_rows = [[(float32, ''aaaa'')]]\<rparr>"
    by simp
  have d: "from_fileobj (\<lambda>n. n) ?lt ?file \<noteq> from_fileobj (\<lambda>n. n + 7) ?lt ?file"
    by code_simp
  show ?thesis using r1 r2 e d by simp
qed

end
